theory Spec2Isabelle
  imports Main "HOL-Library.Sublist" "HOL-Library.Word"
begin

section \<open>Shared data model: statuses, payloads, results\<close>

text \<open>
  The Go package \<open>tasks\<close> declares the result type every diagnostic task returns.
  Its declaration is not among the source files; the fields below are the ones the
  source files read and write (\<open>Status\<close>, \<open>Summary\<close>, \<open>URL\<close>, \<open>Payload\<close>,
  \<open>FilesToCopy\<close>), and the six statuses are the ones the tasks name
  (\<open>tasks.None\<close>, \<open>tasks.Success\<close>, \<open>tasks.Warning\<close>, \<open>tasks.Failure\<close>,
  \<open>tasks.Error\<close>, \<open>tasks.Info\<close>). \<open>tasks.None\<close> is the zero value of the type.
\<close>

datatype Status = NoneStatus | Success | Warning | Failure | Error | Info

text \<open>\<open>AppNameInfo\<close> of \<open>tasks/base/config/appname.go\<close>.\<close>

record AppNameInfo =
  Name :: string
  FilePath :: string

text \<open>
  \<open>tasks.ProcIDSysProps\<close>: the source reads its field \<open>SysPropsKeyToVal\<close>, a
  \<open>map[string]string\<close>. Go maps are association lists here, looked up with
  \<open>map_of\<close>.
\<close>

record ProcIDSysProps =
  SysPropsKeyToVal :: "(string \<times> string) list"

text \<open>
  \<open>tasks.ValidateBlob\<close> is a tree of parsed configuration keys; the source reads
  \<open>Key\<close>, \<open>Path\<close> and \<open>Children\<close>, and calls the methods \<open>FindKey\<close>,
  \<open>IsLeaf\<close> and \<open>Value\<close>, which are parameters of the tasks below.
\<close>

datatype ValidateBlob =
  ValidateBlob (Key: string) (Path: string) (RawValue: string) (Children: "ValidateBlob list")

record ConfigElement =
  FileName :: string
  CfgFilePath :: string

record ValidateElement =
  Config :: ConfigElement
  ParsedResult :: ValidateBlob

text \<open>
  \<open>FileCopyEnvelope\<close>: a file a task wants bundled. \<open>Stream\<close> is a Go channel of
  strings, \<open>nil\<close> for a file on disk; \<open>duplicateCount\<close> is the counter that
  \<open>IncrementDuplicateCount\<close> bumps and \<open>StoreName\<close> reads.
\<close>

record FileCopyEnvelope =
  EnvPath :: string
  Stream :: "string list option"
  Identifier :: string
  duplicateCount :: nat

text \<open>
  \<open>Payload\<close> is Go's \<open>interface{}\<close>: a value tagged with its dynamic type. The
  constructors are the dynamic types the source files assert or build; \<open>POther\<close>
  stands for a value of any other type.
\<close>

datatype Payload =
    PNil
  | PString string
  | PMapStringString "(string \<times> string) list"
  | PMapStringBool "(string \<times> bool) list"
  | PSysProps "ProcIDSysProps list"
  | PValidateElements "ValidateElement list"
  | PAppNameInfos "AppNameInfo list"
  | POther

record Result =
  Status :: Status
  Summary :: string
  URL :: string
  Payload :: Payload
  FilesToCopy :: "FileCopyEnvelope list"

text \<open>The zero value \<open>tasks.Result{}\<close>; a struct literal leaves unnamed fields zero.\<close>

definition zeroResult :: Result where
  "zeroResult = \<lparr>Status = NoneStatus, Summary = [], URL = [], Payload = PNil, FilesToCopy = []\<rparr>"

text \<open>
  The upstream map \<open>map[string]tasks.Result\<close>. Indexing a Go map at a missing key
  gives the zero value.
\<close>

type_synonym Upstream = "string \<Rightarrow> Result option"

definition upstreamAt :: "Upstream \<Rightarrow> string \<Rightarrow> Result" where
  "upstreamAt upstream k = (case upstream k of None \<Rightarrow> zeroResult | Some r \<Rightarrow> r)"

text \<open>\<open>tasks.Options\<close>: a read-only bag of option strings.\<close>

type_synonym Options = "(string \<times> string) list"

section \<open>Go library functions on strings\<close>

text \<open>
  \<open>strings.Contains(s, sub)\<close>: \<open>sub\<close> occurs in \<open>s\<close> as a contiguous run of bytes.
\<close>

fun strings_Contains :: "string \<Rightarrow> string \<Rightarrow> bool" where
  "strings_Contains [] sub = (sub = [])"
| "strings_Contains (c # s) sub = (prefix sub (c # s) \<or> strings_Contains s sub)"

section \<open>Base/Env/InitSystem\<close>

text \<open>
  The task holds the operating system's name and the function that resolves a
  symbolic link; the latter returns a path or an error (its message).
\<close>

record BaseEnvInitSystem =
  runtimeOs :: string
  evalSymlink :: "string \<Rightarrow> string + string"

text \<open>
  The two regular expressions of \<open>parseInitSystem\<close> are \<open>.*(\/systemd$)\<close> and
  \<open>.*(upstart$)\<close>. \<open>Match\<close> searches unanchored, \<open>.*\<close> may match the empty
  string and \<open>$\<close> (no multi-line flag) matches at the end of the text only, so each
  matches exactly the texts that end with its literal.
\<close>

definition regexSysD_Match :: "string \<Rightarrow> bool" where
  "regexSysD_Match s = suffix ''/systemd'' s"

definition regexUpstart_Match :: "string \<Rightarrow> bool" where
  "regexUpstart_Match s = suffix ''upstart'' s"

definition parseInitSystem :: "string \<Rightarrow> string" where
  "parseInitSystem initPath =
     (if initPath = ''/sbin/init'' then ''SysV''
      else if regexSysD_Match initPath then ''Systemd''
      else if regexUpstart_Match initPath then ''Upstart''
      else if strings_Contains initPath ''busybox'' then ''OpenRC Busybox integration''
      else [])"

definition InitSystem_Execute :: "BaseEnvInitSystem \<Rightarrow> Options \<Rightarrow> Upstream \<Rightarrow> Result" where
  "InitSystem_Execute p options upstream =
     (if runtimeOs p = ''windows'' then
        zeroResult\<lparr>Status := NoneStatus, Summary := ''Task does not apply to Windows''\<rparr>
      else if runtimeOs p = ''darwin'' then
        zeroResult\<lparr>Status := NoneStatus, Summary := ''Task does not apply to Mac OS''\<rparr>
      else
        (case evalSymlink p ''/sbin/init'' of
           Inl err \<Rightarrow>
             zeroResult\<lparr>Status := NoneStatus,
               Summary := ''Unable to read symbolic link for /sbin/init: '' @ err\<rparr>
         | Inr initPath \<Rightarrow>
             (let initSystem = parseInitSystem initPath in
              if initSystem = [] then
                zeroResult\<lparr>Status := NoneStatus,
                  Summary := ''Unable to parse init system from: '' @ initPath\<rparr>
              else
                zeroResult\<lparr>Status := Info, Summary := initSystem @ '' detected'',
                  Payload := PString initSystem\<rparr>)))"

text \<open>The names of the init systems \<open>parseInitSystem\<close> knows.\<close>

definition knownInitSystems :: "string list" where
  "knownInitSystems = [''SysV'', ''Systemd'', ''Upstart'', ''OpenRC Busybox integration'']"

section \<open>Parts of package \<open>tasks\<close> the tasks call\<close>

text \<open>
  The tasks below call methods and read constants of package \<open>tasks\<close> whose code
  is not among the source files, and two Go library functions whose results depend
  on Unicode tables or on the file system. They are parameters of the model:
  \<^item> \<open>HasPayload\<close>, a method of \<open>Result\<close>;
  \<^item> \<open>FindKey\<close>, \<open>IsLeaf\<close> and \<open>Value\<close>, methods of \<open>ValidateBlob\<close>;
  \<^item> the summary constants \<open>AssertionErrorSummary\<close>, \<open>NoAgentDetectedSummary\<close>,
    \<open>NoAgentUpstreamSummary\<close> and \<open>UpstreamFailedSummary\<close>;
  \<^item> \<open>tasks.CaseInsensitiveStringContains\<close> and \<open>tasks.FindStringInFile\<close>
    (the latter reads a file);
  \<^item> \<open>strings.EqualFold\<close> of the Go library.
  Calls of the logger at debug level leave no trace in a task's \<open>Result\<close> and are
  not part of the task models.
\<close>

record TasksPkg =
  HasPayload :: "Result \<Rightarrow> bool"
  FindKey :: "ValidateBlob \<Rightarrow> string \<Rightarrow> ValidateBlob list"
  IsLeaf :: "ValidateBlob \<Rightarrow> bool"
  Value :: "ValidateBlob \<Rightarrow> string"
  AssertionErrorSummary :: string
  NoAgentDetectedSummary :: string
  NoAgentUpstreamSummary :: string
  UpstreamFailedSummary :: string
  CaseInsensitiveStringContains :: "string \<Rightarrow> string \<Rightarrow> bool"
  FindStringInFile :: "string \<Rightarrow> string \<Rightarrow> bool"
  EqualFold :: "string \<Rightarrow> string \<Rightarrow> bool"

text \<open>The zero value \<open>tasks.ValidateBlob{}\<close>.\<close>

definition zeroValidateBlob :: ValidateBlob where
  "zeroValidateBlob = ValidateBlob [] [] [] []"

text \<open>Decimal digits of a natural number, as \<open>%d\<close> and \<open>strconv.Itoa\<close> print it.\<close>

fun decimal :: "nat \<Rightarrow> string" where
  "decimal n =
     (if n < 10 then [char_of (48 + n)]
      else decimal (n div 10) @ [char_of (48 + n mod 10)])"

declare decimal.simps [simp del]

section \<open>Base/Config/AppName\<close>

definition appNameEnvVarKey :: string where
  "appNameEnvVarKey = ''NEW_RELIC_APP_NAME''"

definition appNameSysProp :: string where
  "appNameSysProp = ''-Dnewrelic.config.app_name''"

definition appNameConfigKeys :: "string list" where
  "appNameConfigKeys = [''app_name'', ''newrelic.appname'', ''AppName'', ''NewRelic.AppName'', ''name'']"

definition defaultAppNames :: "string list" where
  "defaultAppNames =
     [''PHP Application'', ''Python Application'', ''Python Application (Development)'',
      ''Python Application (Staging)'', ''My Application'', ''My Application (Development)'',
      ''My Application (Test)'', ''My Application (Staging)'']"

definition zeroAppNameInfo :: AppNameInfo where
  "zeroAppNameInfo = \<lparr>Name = [], FilePath = []\<rparr>"

text \<open>
  \<open>getAppNameFromEnvVar\<close>: when the type assertion to \<open>map[string]string\<close> fails,
  the code only logs and goes on with the nil map, in which no key is present.
\<close>

definition getAppNameFromEnvVar :: "Upstream \<Rightarrow> AppNameInfo" where
  "getAppNameFromEnvVar upstream =
     (if Status (upstreamAt upstream ''Base/Env/CollectEnvVars'') = Info then
        (let envVars = (case Payload (upstreamAt upstream ''Base/Env/CollectEnvVars'') of
                          PMapStringString m \<Rightarrow> m
                        | _ \<Rightarrow> [])
         in case map_of envVars appNameEnvVarKey of
              None \<Rightarrow> zeroAppNameInfo
            | Some appname \<Rightarrow> \<lparr>Name = appname, FilePath = appNameEnvVarKey\<rparr>)
      else zeroAppNameInfo)"

fun sysPropsLoop :: "ProcIDSysProps list \<Rightarrow> string" where
  "sysPropsLoop [] = []"
| "sysPropsLoop (p # ps) =
     (case map_of (SysPropsKeyToVal p) appNameSysProp of
        Some appName \<Rightarrow> appName
      | None \<Rightarrow> sysPropsLoop ps)"

definition getAppNameFromSysProps :: "Upstream \<Rightarrow> string" where
  "getAppNameFromSysProps upstream =
     (if Status (upstreamAt upstream ''Base/Env/CollectSysProps'') \<noteq> Info then []
      else (case Payload (upstreamAt upstream ''Base/Env/CollectSysProps'') of
              PSysProps sysProps \<Rightarrow> sysPropsLoop sysProps
            | _ \<Rightarrow> []))"

text \<open>
  \<open>findPrimaryNameKeyInConfigFile\<close>: the loop over \<open>appNameConfigKeys\<close>, with the
  keys still to try as the argument.
\<close>

fun findPrimaryLoop :: "TasksPkg \<Rightarrow> ValidateElement \<Rightarrow> string list \<Rightarrow> ValidateBlob" where
  "findPrimaryLoop T configFile [] = zeroValidateBlob"
| "findPrimaryLoop T configFile (k # ks) =
     (case FindKey T (ParsedResult configFile) k of
        [] \<Rightarrow> findPrimaryLoop T configFile ks
      | [b] \<Rightarrow> b
      | b # bs \<Rightarrow>
          (case find (\<lambda>validateBlob. strings_Contains (Path validateBlob) ''common'') (b # bs) of
             Some validateBlob \<Rightarrow> validateBlob
           | None \<Rightarrow> b))"

definition findPrimaryNameKeyInConfigFile :: "TasksPkg \<Rightarrow> ValidateElement \<Rightarrow> ValidateBlob" where
  "findPrimaryNameKeyInConfigFile T configFile = findPrimaryLoop T configFile appNameConfigKeys"

text \<open>\<open>getAppNamesFromConfig\<close>: what one configuration file appends to the result.\<close>

definition appNamesOfConfigFile :: "TasksPkg \<Rightarrow> ValidateElement \<Rightarrow> AppNameInfo list" where
  "appNamesOfConfigFile T configFile =
     (let primaryNameKey = findPrimaryNameKeyInConfigFile T configFile;
          configFilePath = CfgFilePath (Config configFile);
          configFileName = FileName (Config configFile)
      in if length (Key primaryNameKey) > 0 then
           (if \<not> IsLeaf T primaryNameKey then
              map (\<lambda>child. \<lparr>Name = Value T child, FilePath = configFilePath @ configFileName\<rparr>)
                (Children primaryNameKey)
            else
              (let appName = Value T primaryNameKey
               in if length appName > 0
                  then [\<lparr>Name = appName, FilePath = configFilePath @ configFileName\<rparr>]
                  else []))
         else [])"

definition getAppNamesFromConfig :: "TasksPkg \<Rightarrow> ValidateElement list \<Rightarrow> AppNameInfo list" where
  "getAppNamesFromConfig T configElements = concat (map (appNamesOfConfigFile T) configElements)"

text \<open>The nested loop that collects the lines naming default application names.\<close>

definition defaultNameMatchesOf :: "AppNameInfo list \<Rightarrow> string" where
  "defaultNameMatchesOf infos =
     concat (map (\<lambda>appNameInfo.
       concat (map (\<lambda>defaultName.
         if Name appNameInfo = defaultName
         then [CHR 0x0A, CHR 0x09, CHR 0x22] @ Name appNameInfo @ [CHR 0x22] @
              '' as specified in '' @ FilePath appNameInfo
         else []) defaultAppNames)) infos)"

definition defaultWarning :: string where
  "defaultWarning = CHR 0x0A #
     ''Multiple applications with the same default appname will all report to the same source. Consider changing to a unique appname and review the recommended documentation''"

definition appNameDocsURL :: string where
  "appNameDocsURL = ''https://docs.newrelic.com/docs/agents/manage-apm-agents/app-naming/name-your-application''"

text \<open>
  The part of \<open>Execute\<close> after the two early exits: the configuration files.
  \<open>appNameInfosFromConfig[0]\<close> is read only where the list is not empty.
\<close>

definition AppName_fromConfig :: "TasksPkg \<Rightarrow> Upstream \<Rightarrow> Result" where
  "AppName_fromConfig T upstream =
     (if \<not> HasPayload T (upstreamAt upstream ''Base/Config/Validate'') then
        zeroResult\<lparr>Status := NoneStatus,
          Summary := ''Task did not meet requirements necessary to run: no validated config files to check''\<rparr>
      else
        (case Payload (upstreamAt upstream ''Base/Config/Validate'') of
           PValidateElements configElements \<Rightarrow>
             (case getAppNamesFromConfig T configElements of
                [] \<Rightarrow>
                  zeroResult\<lparr>Status := Warning,
                    Summary := ''No New Relic app names were found. Please ensure an app name is set in your New Relic agent configuration file or as a New Relic environment variable (NEW_RELIC_APP_NAME). Ignore this warning if you are troubleshooting for a non APM Agent.'',
                    URL := appNameDocsURL\<rparr>
              | first # others \<Rightarrow>
                  (let defaultNameMatches = defaultNameMatchesOf (first # others)
                   in if length defaultNameMatches > 0 then
                        zeroResult\<lparr>Status := Warning,
                          Summary := ''One or more of your applications is using a default appname: '' @
                            defaultNameMatches @ '' '' @ defaultWarning,
                          URL := appNameDocsURL\<rparr>
                      else
                        zeroResult\<lparr>Status := Success,
                          Summary := decimal (length (first # others)) @
                            '' unique application name(s) found: '' @ Name first,
                          Payload := PAppNameInfos (first # others)\<rparr>))
         | _ \<Rightarrow> zeroResult\<lparr>Status := Error, Summary := AssertionErrorSummary T\<rparr>))"

definition AppName_Execute :: "TasksPkg \<Rightarrow> Options \<Rightarrow> Upstream \<Rightarrow> Result" where
  "AppName_Execute T options upstream =
     (let appNameInfoFromEnvVar = getAppNameFromEnvVar upstream
      in if length (Name appNameInfoFromEnvVar) > 0 then
           zeroResult\<lparr>Status := Success,
             Summary := ''A unique application name was found through the New Relic App name environment variable: '' @
               Name appNameInfoFromEnvVar,
             Payload := PAppNameInfos [appNameInfoFromEnvVar]\<rparr>
         else
           (let appname = getAppNameFromSysProps upstream
            in if appname \<noteq> [] then
                 zeroResult\<lparr>Status := Success,
                   Summary := ''An application name was found through a New Relic system property: '' @ appname,
                   Payload := PAppNameInfos [\<lparr>Name = appname, FilePath = appNameSysProp\<rparr>]\<rparr>
               else AppName_fromConfig T upstream))"

section \<open>DotNet/Config/Agent\<close>

definition newrelicConfigKeys :: "string list" where
  "newrelicConfigKeys = [''-agentEnabled'', ''-licenseKey'']"

definition webAppConfigKeys :: "string list" where
  "webAppConfigKeys = [''-key'', ''-targetFramework'']"

definition checkRawFile :: "TasksPkg \<Rightarrow> string \<Rightarrow> bool" where
  "checkRawFile T path = FindStringInFile T ''[<]configuration[>]?'' path"

text \<open>
  One round of the loop of \<open>checkConfigs\<close>: whether the file is added to
  \<open>filesValidated\<close>. \<open>keysToCheck\<close> is set afresh in every round that gets past
  the file name test.
\<close>

definition configFileValidated :: "TasksPkg \<Rightarrow> ValidateElement \<Rightarrow> bool" where
  "configFileValidated T configFile =
     (let fullPath = CfgFilePath (Config configFile) @ FileName (Config configFile);
          keysToCheck =
            (if EqualFold T (FileName (Config configFile)) ''newrelic.config''
             then Some newrelicConfigKeys
             else if EqualFold T (FileName (Config configFile)) ''web.config'' \<or>
                     CaseInsensitiveStringContains T (FileName (Config configFile)) ''.exe.config''
             then Some webAppConfigKeys
             else None)
      in case keysToCheck of
           None \<Rightarrow> False
         | Some keys \<Rightarrow>
             (let keysFound = filter (\<lambda>key. length (FindKey T (ParsedResult configFile) key) > 0) keys
              in if length keysFound > 0 then True else checkRawFile T fullPath))"

definition checkConfigs :: "TasksPkg \<Rightarrow> ValidateElement list \<Rightarrow> ValidateElement list \<times> bool" where
  "checkConfigs T configFiles =
     (let filesValidated = filter (configFileValidated T) configFiles
      in if length filesValidated > 0 then (filesValidated, False) else (filesValidated, True))"

definition DotNetConfigAgent_Execute :: "TasksPkg \<Rightarrow> Options \<Rightarrow> Upstream \<Rightarrow> Result" where
  "DotNetConfigAgent_Execute T options upstream =
     (if Status (upstreamAt upstream ''DotNet/Agent/Installed'') \<noteq> Success then
        (if Summary (upstreamAt upstream ''DotNet/Agent/Installed'') = NoAgentDetectedSummary T then
           zeroResult\<lparr>Status := NoneStatus,
             Summary := NoAgentUpstreamSummary T @ ''DotNet/Agent/Installed''\<rparr>
         else
           zeroResult\<lparr>Status := NoneStatus,
             Summary := UpstreamFailedSummary T @ ''DotNet/Agent/Installed''\<rparr>)
      else
        (case Payload (upstreamAt upstream ''Base/Config/Validate'') of
           PValidateElements configFiles \<Rightarrow>
             (case checkConfigs T configFiles of
                (filesToAdd, err) \<Rightarrow>
                  if err then
                    zeroResult\<lparr>Status := Warning,
                      Summary := ''Unable to validate the .NET agent config files because the files do not contain typical .NET agent configuration settings.''\<rparr>
                  else
                    zeroResult\<lparr>Status := Success,
                      Summary := ''Found '' @ decimal (length filesToAdd) @ '' .NET agent config files.'',
                      Payload := PValidateElements filesToAdd\<rparr>)
         | _ \<Rightarrow> zeroResult\<lparr>Status := Error, Summary := AssertionErrorSummary T\<rparr>))"

section \<open>Uploader (package \<open>attach\<close>)\<close>

text \<open>
  Of package \<open>attach\<close> only the tests are among the source files: they call
  \<open>getAttachmentsEndpoint\<close>, \<open>uploadFile\<close> and \<open>uploadFilesToAccount\<close> and mock
  the dependencies \<open>GetFileSize\<close>, \<open>GetReader\<close>, \<open>GetWrapper\<close> and
  \<open>GetUrlsToReturn\<close>. The types below follow the tests' literals.
\<close>

record AttachConfig =
  Flags_AttachmentEndpoint :: string
  AttachmentEndpoint :: string

text \<open>
  Modelled from the spec: \<open>getAttachmentsEndpoint\<close> is missing from the source
  files. The spec resolves the endpoint with the precedence explicit runtime flag,
  then explicit persisted configuration value, then a fixed default, a local
  loopback address; the tests give the default's text and use the empty string for
  a value that is not set.
\<close>

definition getAttachmentsEndpoint :: "AttachConfig \<Rightarrow> string" where
  "getAttachmentsEndpoint cfg =
     (if Flags_AttachmentEndpoint cfg \<noteq> [] then Flags_AttachmentEndpoint cfg
      else if AttachmentEndpoint cfg \<noteq> [] then AttachmentEndpoint cfg
      else ''http://localhost:3000/attachments'')"

text \<open>
  The table of \<open>TestAttachDeps_getAttachmentsEndpoint\<close> (the three contexts of the
  \<open>GetAttachmentEndpoints\<close> suite are the same three rows): persisted value, flag
  value, expected result.
\<close>

definition getAttachmentsEndpoint_tests :: "(string \<times> string \<times> string) list" where
  "getAttachmentsEndpoint_tests =
     [([], [], ''http://localhost:3000/attachments''),
      ([], ''http://diag.datanerd.us/attachments'', ''http://diag.datanerd.us/attachments''),
      (''http://diag.datanerd.us/attachments'', [], ''http://diag.datanerd.us/attachments'')]"

definition getAttachmentsEndpoint_test_passes :: "string \<times> string \<times> string \<Rightarrow> bool" where
  "getAttachmentsEndpoint_test_passes t =
     (case t of (attachmentEndpoint, flagsAttachmentEndpoint, want) \<Rightarrow>
        getAttachmentsEndpoint
          \<lparr>Flags_AttachmentEndpoint = flagsAttachmentEndpoint,
           AttachmentEndpoint = attachmentEndpoint\<rparr> = want)"

record UploadFiles =
  UPath :: string
  Filename :: string
  NewFilename :: string
  Filesize :: int
  UURL :: string
  UKey :: string

record RequestWrapper =
  Method :: string
  WURL :: string
  WPayload :: string
  Length :: int
  TimeoutSeconds :: nat
  Headers :: "(string \<times> string) list"

text \<open>
  The dependencies of the uploader, as the tests mock them: each returns a value or
  an error (its message). \<open>makeRequest\<close> answers with an HTTP status code or a
  transport error.
\<close>

record AttachDeps =
  GetFileSize :: "UploadFiles \<Rightarrow> int"
  GetReader :: "UploadFiles \<Rightarrow> string + string"
  GetWrapper :: "string \<Rightarrow> int \<Rightarrow> string \<Rightarrow> string \<Rightarrow> RequestWrapper"
  GetUrlsToReturn :: "string \<Rightarrow> UploadFiles \<Rightarrow> string + string"
  makeRequest :: "RequestWrapper \<Rightarrow> string + nat"

datatype UploadError =
    UrlRequestError string
  | ReaderError string
  | TransportError string
  | BadStatus nat

text \<open>
  Modelled from the spec: \<open>uploadFile\<close> is missing from the source files. For one
  file the spec (a) requests a destination URL from the remote endpoint, passing
  the attachment key and the file; (b) transfers the content, streaming the file's
  reader and declaring the byte length; (c) treats any non-2xx response, any
  transport error and any reader-construction error as a failure of that file. An
  error of the URL request is a failure too (the tests' case "Test with url
  error").
\<close>

definition uploadFile :: "AttachDeps \<Rightarrow> string \<Rightarrow> UploadFiles \<Rightarrow> string \<Rightarrow> UploadError + string" where
  "uploadFile deps endpoint file attachmentKey =
     (case GetUrlsToReturn deps attachmentKey file of
        Inl err \<Rightarrow> Inl (UrlRequestError err)
      | Inr url \<Rightarrow>
          (case GetReader deps file of
             Inl err \<Rightarrow> Inl (ReaderError err)
           | Inr reader \<Rightarrow>
               (case makeRequest deps (GetWrapper deps reader (GetFileSize deps file) attachmentKey url) of
                  Inl err \<Rightarrow> Inl (TransportError err)
                | Inr code \<Rightarrow>
                    if 200 \<le> code \<and> code < 300 then Inr url else Inl (BadStatus code))))"

text \<open>
  Modelled from the spec: \<open>uploadFilesToAccount\<close> is missing from the source
  files. On a per-file failure the spec aborts the remaining uploads of the batch
  and surfaces the error; on success for every file it returns the public URLs, one
  per input file, in the order of the input. The loop carries the URLs collected so
  far and the files it has tried, and returns both: the second is the trace of the
  uploads that were started.
\<close>

fun uploadLoop ::
  "AttachDeps \<Rightarrow> string \<Rightarrow> string \<Rightarrow> UploadFiles list \<Rightarrow> string list \<Rightarrow> UploadFiles list \<Rightarrow>
   UploadFiles list \<times> (UploadError + string list)" where
  "uploadLoop deps endpoint attachmentKey [] urls tried = (tried, Inr urls)"
| "uploadLoop deps endpoint attachmentKey (file # files) urls tried =
     (case uploadFile deps endpoint file attachmentKey of
        Inl err \<Rightarrow> (tried @ [file], Inl err)
      | Inr url \<Rightarrow> uploadLoop deps endpoint attachmentKey files (urls @ [url]) (tried @ [file]))"

definition uploadFilesToAccount ::
  "AttachDeps \<Rightarrow> string \<Rightarrow> UploadFiles list \<Rightarrow> string \<Rightarrow> UploadFiles list \<times> (UploadError + string list)" where
  "uploadFilesToAccount deps endpoint filesToUpload attachmentKey =
     uploadLoop deps endpoint attachmentKey filesToUpload [] []"

section \<open>Artifact collector (\<open>ProcessFilesChannel\<close>, package \<open>output\<close>)\<close>

text \<open>
  \<open>registration.TaskResult\<close>, the unit on the results and the files channel: the
  task (here its identifier, the string \<open>Task.Identifier().String()\<close>), its result
  and the override mark.
\<close>

record TaskResult =
  Task :: string
  Result :: Result
  WasOverride :: bool

text \<open>
  What the collector calls outside the source files: \<open>tasks.FileExists\<close> (the file
  system), the envelope's method \<open>IsExecutable\<close> (a boolean or an error) and its
  method \<open>StoreName\<close>.

  Modelled from the spec: \<open>StoreName\<close> and \<open>IncrementDuplicateCount\<close> are methods
  of \<open>FileCopyEnvelope\<close> in package \<open>tasks\<close>, missing from the source files. In the
  spec \<open>StoreName()\<close> derives the in-archive name from Path plus a duplicate-count
  suffix, and the duplicate counter is incremented on a collision; so the name is a
  function \<open>StoreNameOf\<close> of the path and the counter, a parameter here.
\<close>

record CollectorDeps =
  FileExists :: "string \<Rightarrow> bool"
  IsExecutable :: "FileCopyEnvelope \<Rightarrow> string + bool"
  StoreNameOf :: "string \<Rightarrow> nat \<Rightarrow> string"

definition StoreName :: "CollectorDeps \<Rightarrow> FileCopyEnvelope \<Rightarrow> string" where
  "StoreName deps envelope = StoreNameOf deps (EnvPath envelope) (duplicateCount envelope)"

definition IncrementDuplicateCount :: "FileCopyEnvelope \<Rightarrow> FileCopyEnvelope" where
  "IncrementDuplicateCount envelope = envelope\<lparr>duplicateCount := duplicateCount envelope + 1\<rparr>"

text \<open>
  The state of \<open>ProcessFilesChannel\<close>: the two maps with empty values, used as sets
  (\<open>mapContains\<close> is membership), and the list of accepted envelopes.
\<close>

record CollectorState =
  fileList :: "string set"
  pathList :: "string set"
  taskFiles :: "FileCopyEnvelope list"

definition emptyCollectorState :: CollectorState where
  "emptyCollectorState = \<lparr>fileList = {}, pathList = {}, taskFiles = []\<rparr>"

text \<open>
  The loop \<open>for i := 1; i < 50; i++\<close> that looks for a free name, from the value
  \<open>i\<close> of its counter: the envelope with a free name (\<open>break\<close>), or nothing when the
  loop runs out.
\<close>

function nameLoop :: "CollectorDeps \<Rightarrow> nat \<Rightarrow> string set \<Rightarrow> FileCopyEnvelope \<Rightarrow> FileCopyEnvelope option" where
  "nameLoop deps i names envelope =
     (if i < 50 then
        (if StoreName deps envelope \<notin> names then Some envelope
         else nameLoop deps (i + 1) names (IncrementDuplicateCount envelope))
      else None)"
  by pat_completeness auto
termination
  by (relation "measure (\<lambda>(deps, i, names, envelope). 50 - i)") auto

declare nameLoop.simps [simp del]

text \<open>The body of the inner loop: one envelope of the result of task \<open>taskId\<close>.\<close>

definition processEnvelope :: "CollectorDeps \<Rightarrow> string \<Rightarrow> CollectorState \<Rightarrow> FileCopyEnvelope \<Rightarrow> CollectorState" where
  "processEnvelope deps taskId st envelope =
     (if Stream envelope = None \<and> \<not> FileExists deps (EnvPath envelope) then st
      else
        (case IsExecutable deps envelope of
           Inl exeErr \<Rightarrow> st
         | Inr isExecutable \<Rightarrow>
             if isExecutable then st
             else if Stream envelope = None \<and> EnvPath envelope \<in> pathList st then st
             else
               (case nameLoop deps 1 (fileList st) envelope of
                  None \<Rightarrow> st
                | Some named \<Rightarrow>
                    \<lparr>fileList = insert (StoreName deps named) (fileList st),
                     pathList = insert (EnvPath named) (pathList st),
                     taskFiles = taskFiles st @
                       [if Identifier named = [] then named\<lparr>Identifier := taskId\<rparr> else named]\<rparr>)))"

definition processResult :: "CollectorDeps \<Rightarrow> CollectorState \<Rightarrow> TaskResult \<Rightarrow> CollectorState" where
  "processResult deps st result =
     foldl (processEnvelope deps (Task result)) st (FilesToCopy (Result result))"

text \<open>
  \<open>ProcessFilesChannel\<close> reads the channel until it is closed and hands
  \<open>taskFiles\<close> to \<open>copyFilesToZip\<close>; the model returns that list.
\<close>

definition collect :: "CollectorDeps \<Rightarrow> TaskResult list \<Rightarrow> CollectorState" where
  "collect deps channel = foldl (processResult deps) emptyCollectorState channel"

definition ProcessFilesChannel :: "CollectorDeps \<Rightarrow> TaskResult list \<Rightarrow> FileCopyEnvelope list" where
  "ProcessFilesChannel deps channel = taskFiles (collect deps channel)"

subsection \<open>Invariants of the collector\<close>

text \<open>
  The invariant of the collector's loops: every accepted path is in \<open>pathList\<close>, and an
  accepted envelope without a stream has a path that no envelope accepted before it has.
\<close>

definition pathsFresh :: "FileCopyEnvelope list \<Rightarrow> bool" where
  "pathsFresh accepted =
     (\<forall>pre e post. accepted = pre @ e # post \<and> Stream e = None \<longrightarrow> EnvPath e \<notin> EnvPath ` set pre)"

definition collectorInv :: "CollectorState \<Rightarrow> bool" where
  "collectorInv st =
     (EnvPath ` set (taskFiles st) \<subseteq> pathList st \<and> pathsFresh (taskFiles st) \<and>
      distinct (map EnvPath (filter (\<lambda>e. Stream e = None) (taskFiles st))))"

text \<open>
  The names of the accepted envelopes are in \<open>fileList\<close> and differ from each other.
\<close>

definition namesInv :: "CollectorDeps \<Rightarrow> CollectorState \<Rightarrow> bool" where
  "namesInv deps st =
     (StoreName deps ` set (taskFiles st) \<subseteq> fileList st \<and>
      distinct (map (StoreName deps) (taskFiles st)))"

text \<open>
  Envelopes that get as far as the search for a name and share their names: a file
  on disk that exists and is not executable, with counter 0, whose name at counter
  \<open>c\<close> is \<open>g c\<close>.
\<close>

definition sharesNames :: "CollectorDeps \<Rightarrow> (nat \<Rightarrow> string) \<Rightarrow> FileCopyEnvelope \<Rightarrow> bool" where
  "sharesNames deps g envelope =
     (Stream envelope = None \<and> FileExists deps (EnvPath envelope) \<and>
      IsExecutable deps envelope = Inr False \<and> duplicateCount envelope = 0 \<and>
      list_all (\<lambda>c. StoreNameOf deps (EnvPath envelope) c = g c) [0..<50])"

section \<open>Logger and colours\<close>


datatype Color = StatusColor Status | Gray | LightRed | White | Yellow

section \<open>Result aggregator (\<open>WriteLineResults\<close>, package \<open>output\<close>)\<close>

subsection \<open>\<open>%.50s\<close>: Go's truncation of a string to 50 characters\<close>

text \<open>
  A Go string is a sequence of bytes; \<open>len\<close> counts bytes. \<open>fmt\<close> cuts a string
  for \<open>%.50s\<close> with \<open>for i := range s\<close>, which steps through the string one
  UTF-8 encoded character (rune) at a time and takes a byte that starts no valid
  encoding as a character of width 1. \<open>firstByte\<close> is the table of
  \<open>unicode/utf8\<close>: for the first byte of a character, the width of the encoding
  and the range the second byte must lie in.
\<close>

definition firstByte :: "nat \<Rightarrow> nat \<times> nat \<times> nat" where
  "firstByte b =
     (if b < 0x80 then (1, 0, 0)
      else if b < 0xC2 then (1, 0, 0)
      else if b \<le> 0xDF then (2, 0x80, 0xBF)
      else if b = 0xE0 then (3, 0xA0, 0xBF)
      else if b = 0xED then (3, 0x80, 0x9F)
      else if b \<le> 0xEF then (3, 0x80, 0xBF)
      else if b = 0xF0 then (4, 0x90, 0xBF)
      else if b \<le> 0xF3 then (4, 0x80, 0xBF)
      else if b = 0xF4 then (4, 0x80, 0x8F)
      else (1, 0, 0))"

definition continuationByte :: "char \<Rightarrow> bool" where
  "continuationByte c = (0x80 \<le> (of_char c :: nat) \<and> (of_char c :: nat) \<le> 0xBF)"

text \<open>The width in bytes of the first character of a string that is not empty.\<close>

definition runeWidth :: "string \<Rightarrow> nat" where
  "runeWidth s =
     (case s of
        [] \<Rightarrow> 0
      | c # cs \<Rightarrow>
          (case firstByte (of_char c) of
             (sz, lo, hi) \<Rightarrow>
               if sz = 1 then 1
               else if length s < sz then 1
               else if (of_char (s ! 1) :: nat) < lo \<or> hi < (of_char (s ! 1) :: nat) then 1
               else if sz \<le> 2 then 2
               else if \<not> continuationByte (s ! 2) then 1
               else if sz \<le> 3 then 3
               else if \<not> continuationByte (s ! 3) then 1
               else 4))"

text \<open>\<open>truncateString\<close> of package \<open>fmt\<close> with precision \<open>n\<close>: the first \<open>n\<close> characters.\<close>

fun truncateString :: "nat \<Rightarrow> string \<Rightarrow> string" where
  "truncateString 0 s = []"
| "truncateString (Suc n) s =
     (if s = [] then []
      else take (runeWidth s) s @ truncateString n (drop (runeWidth s) s))"

text \<open>
  \<open>newlineRegexp.ReplaceAllString(summary, " ")\<close> for the expression \<open>\n\<close>: every
  newline byte becomes a space, every other byte stays.
\<close>

definition replaceNewlines :: "string \<Rightarrow> string" where
  "replaceNewlines s = map (\<lambda>c. if c = CHR 0x0A then CHR '' '' else c) s"

subsection \<open>The loop over the results channel\<close>




text \<open>
  The text in brackets after the identifier (the variable \<open>payload\<close>): set for a
  result of status Info only.
\<close>

definition summaryPayload :: "Result \<Rightarrow> string" where
  "summaryPayload r =
     (if Status r = Info then
        (let newSummary = replaceNewlines (Summary r);
             truncated = (if length newSummary > 50 then ''...'' else [])
         in '' ['' @ truncateString 50 newSummary @ truncated @ ''] '')
      else [])"








subsection \<open>The results by what the aggregator does with them\<close>










section \<open>Archive builder (\<open>HandleIncludeFlag\<close>, package \<open>output\<close>)\<close>














section \<open>Concrete inputs\<close>

text \<open>
  Concrete inputs for the instances below: a \<open>tasks\<close> package whose blob methods
  find nothing, and an upstream map in which the environment variable, a system
  property and the agent installation check all have results.
\<close>

definition exampleTasksPkg :: TasksPkg where
  "exampleTasksPkg =
     \<lparr>HasPayload = (\<lambda>r. Payload r \<noteq> PNil),
      FindKey = (\<lambda>blob k. []),
      IsLeaf = (\<lambda>blob. Children blob = []),
      Value = RawValue,
      AssertionErrorSummary = ''Task gave wrong payload type'',
      NoAgentDetectedSummary = ''No agent detected'',
      NoAgentUpstreamSummary = ''No agent detected by upstream task: '',
      UpstreamFailedSummary = ''Upstream dependency failed: '',
      CaseInsensitiveStringContains = (\<lambda>s sub. strings_Contains s sub),
      FindStringInFile = (\<lambda>re path. False),
      EqualFold = (\<lambda>a b. a = b)\<rparr>"

definition exampleUpstream :: Upstream where
  "exampleUpstream =
     [''Base/Env/CollectEnvVars'' \<mapsto>
        zeroResult\<lparr>Status := Info,
          Payload := PMapStringString [(''PATH'', ''/usr/bin''), (''NEW_RELIC_APP_NAME'', ''shop'')]\<rparr>,
      ''Base/Env/CollectSysProps'' \<mapsto>
        zeroResult\<lparr>Status := Info,
          Payload := PSysProps [\<lparr>SysPropsKeyToVal = [(''-Dnewrelic.config.app_name'', ''billing'')]\<rparr>]\<rparr>,
      ''Base/Config/Validate'' \<mapsto> zeroResult\<lparr>Status := Success, Payload := POther\<rparr>,
      ''DotNet/Agent/Installed'' \<mapsto>
        zeroResult\<lparr>Status := Failure, Summary := ''No agent detected''\<rparr>]"

text \<open>
  The file and the mocks of \<open>Test_uploadFile\<close>: the test server answers 200 to a
  path with \<open>/success\<close> and 500 to one with \<open>/error\<close>; every mock returns a
  fixed value. \<open>secondUrlFailsDeps\<close> is the spec's scenario of two files of which the
  second file's URL request returns an error.
\<close>

definition jsonfile :: UploadFiles where
  "jsonfile = \<lparr>UPath = ''/'', Filename = ''file1.json'', NewFilename = ''file1-timestamp.json'',
      Filesize = 4, UURL = [], UKey = ''testKey''\<rparr>"

definition zipfile2 :: UploadFiles where
  "zipfile2 = \<lparr>UPath = ''/'', Filename = ''nrdiag-output.zip'', NewFilename = ''nrdiag-output-timestamp.zip'',
      Filesize = 9, UURL = [], UKey = ''testKey''\<rparr>"

definition testServer :: "RequestWrapper \<Rightarrow> string + nat" where
  "testServer w =
     Inr (if strings_Contains (WURL w) ''/success'' then 200
          else if strings_Contains (WURL w) ''/error'' then 500
          else 200)"

definition mockWrapper :: "string \<Rightarrow> RequestWrapper" where
  "mockWrapper path =
     \<lparr>Method = ''POST'', WURL = ''http://127.0.0.1:8080'' @ path, WPayload = ''mock'', Length = 4,
      TimeoutSeconds = 7200, Headers = [(''Attachment-Key'', ''123563454'')]\<rparr>"

definition mockAttachDeps :: "string + string \<Rightarrow> string \<Rightarrow> string + string \<Rightarrow> AttachDeps" where
  "mockAttachDeps getReader path getUrlsToReturn =
     \<lparr>GetFileSize = (\<lambda>file. 4),
      GetReader = (\<lambda>file. getReader),
      GetWrapper = (\<lambda>reader size attachmentKey url. mockWrapper path),
      GetUrlsToReturn = (\<lambda>attachmentKey file. getUrlsToReturn),
      makeRequest = testServer\<rparr>"

definition secondUrlFailsDeps :: AttachDeps where
  "secondUrlFailsDeps =
     \<lparr>GetFileSize = Filesize,
      GetReader = (\<lambda>file. Inr ''mock''),
      GetWrapper = (\<lambda>reader size attachmentKey url. mockWrapper ''/success''),
      GetUrlsToReturn = (\<lambda>attachmentKey file.
         if Filename file = ''file1.json'' then Inr ''https://newrelic.com'' else Inl ''URL Error''),
      makeRequest = testServer\<rparr>"

text \<open>
  Modelled from the spec: a \<open>StoreName\<close> that perturbs the name by appending a
  numeric suffix, the file's base name followed by \<open>_\<close> and the counter when the
  counter is not 0. With it, sixty files on disk in sixty directories that share
  the base name \<open>newrelic.log\<close>, produced by one task; and two tasks that each
  hand in the same configuration file and a stream under the same path.
\<close>

definition baseName :: "string \<Rightarrow> string" where
  "baseName path = rev (takeWhile (\<lambda>c. c \<noteq> CHR ''/'') (rev path))"

definition exampleStoreName :: "string \<Rightarrow> nat \<Rightarrow> string" where
  "exampleStoreName path count =
     baseName path @ (if count = 0 then [] else ''_'' @ decimal count)"

definition exampleCollectorDeps :: CollectorDeps where
  "exampleCollectorDeps =
     \<lparr>FileExists = (\<lambda>path. True), IsExecutable = (\<lambda>envelope. Inr False),
      StoreNameOf = exampleStoreName\<rparr>"

definition sameNameEnvelope :: "nat \<Rightarrow> FileCopyEnvelope" where
  "sameNameEnvelope n =
     \<lparr>EnvPath = ''/var/log/app'' @ decimal n @ ''/newrelic.log'', Stream = None,
      Identifier = [], duplicateCount = 0\<rparr>"

definition sixtyEnvelopes :: "FileCopyEnvelope list" where
  "sixtyEnvelopes = map sameNameEnvelope [0..<60]"

definition sixtyResult :: TaskResult where
  "sixtyResult =
     \<lparr>Task = ''Base/Log/Copy'', Result = zeroResult\<lparr>FilesToCopy := sixtyEnvelopes\<rparr>,
      WasOverride = False\<rparr>"

definition exampleNames :: "nat \<Rightarrow> string" where
  "exampleNames count = ''newrelic.log'' @ (if count = 0 then [] else ''_'' @ decimal count)"

definition configFileEnvelope :: FileCopyEnvelope where
  "configFileEnvelope =
     \<lparr>EnvPath = ''/etc/newrelic/newrelic.yml'', Stream = None, Identifier = [], duplicateCount = 0\<rparr>"

definition envStreamEnvelope :: FileCopyEnvelope where
  "envStreamEnvelope =
     \<lparr>EnvPath = ''nrdiag-env.txt'', Stream = Some [''PATH=/usr/bin''], Identifier = [],
      duplicateCount = 0\<rparr>"

definition configCollectResult :: TaskResult where
  "configCollectResult =
     \<lparr>Task = ''Base/Config/Collect'',
      Result = zeroResult\<lparr>FilesToCopy := [envStreamEnvelope, configFileEnvelope]\<rparr>,
      WasOverride = False\<rparr>"

definition envVarsResult :: TaskResult where
  "envVarsResult =
     \<lparr>Task = ''Base/Env/CollectEnvVars'',
      Result = zeroResult\<lparr>FilesToCopy := [configFileEnvelope, envStreamEnvelope]\<rparr>,
      WasOverride = False\<rparr>"

definition repeatedPathsChannel :: "TaskResult list" where
  "repeatedPathsChannel = [configCollectResult, envVarsResult]"





definition infoNonAscii :: TaskResult where
  "infoNonAscii =
     \<lparr>Task = ''Base/Env/HostInfo'',
      Result = zeroResult\<lparr>Status := Info,
        Summary := concat (replicate 26 [CHR 0xC3, CHR 0xA9])\<rparr>,
      WasOverride = False\<rparr>"







section \<open>Properties of the tasks\<close>

lemma strings_Contains_sublist: "strings_Contains s sub = sublist sub s"
  by (induction s) (auto simp: sublist_Cons_right)

lemma parseInitSystem_known:
  "parseInitSystem initPath = [] \<or> parseInitSystem initPath \<in> set knownInitSystems"
  by (simp add: parseInitSystem_def knownInitSystems_def)

text \<open>
  C8. For every operating system name and every outcome of resolving \<open>/sbin/init\<close>,
  the status of the result is None or Info. It is Info exactly when the link was
  resolved (the task applies: neither Windows nor Mac OS, and no error) and the
  resolved path parses to one of the four known init systems; the payload then
  carries that name.
\<close>

theorem InitSystem_Execute_status:
  "Status (InitSystem_Execute p options upstream) \<in> {NoneStatus, Info} \<and>
   (Status (InitSystem_Execute p options upstream) = Info \<longleftrightarrow>
      runtimeOs p \<noteq> ''windows'' \<and> runtimeOs p \<noteq> ''darwin'' \<and>
      (\<exists>initPath. evalSymlink p ''/sbin/init'' = Inr initPath \<and>
         parseInitSystem initPath \<in> set knownInitSystems)) \<and>
   (\<forall>initPath. Status (InitSystem_Execute p options upstream) = Info \<and>
        evalSymlink p ''/sbin/init'' = Inr initPath \<longrightarrow>
        Payload (InitSystem_Execute p options upstream) = PString (parseInitSystem initPath))"
proof -
  have known: "parseInitSystem q \<in> set knownInitSystems \<longleftrightarrow> parseInitSystem q \<noteq> []" for q
    by (simp add: parseInitSystem_def knownInitSystems_def)
  show ?thesis
    unfolding InitSystem_Execute_def known
    by (cases "evalSymlink p ''/sbin/init''") (simp_all add: zeroResult_def Let_def)
qed

theorem InitSystem_Execute_status_witness:
  "Status (InitSystem_Execute
      \<lparr>runtimeOs = ''linux'', evalSymlink = (\<lambda>_. Inr ''/lib/systemd/systemd'')\<rparr> [] Map.empty) = Info \<and>
   Payload (InitSystem_Execute
      \<lparr>runtimeOs = ''linux'', evalSymlink = (\<lambda>_. Inr ''/lib/systemd/systemd'')\<rparr> [] Map.empty)
     = PString ''Systemd''"
proof -
  have p: "parseInitSystem ''/lib/systemd/systemd'' = ''Systemd''"
    by (simp add: parseInitSystem_def regexSysD_Match_def suffix_def)
  show ?thesis
    using InitSystem_Execute_status
      [of "\<lparr>runtimeOs = ''linux'', evalSymlink = (\<lambda>_. Inr ''/lib/systemd/systemd'')\<rparr>" "[]" Map.empty]
    by (simp add: p knownInitSystems_def)
qed

text \<open>
  C9. When the upstream result of \<open>Base/Env/CollectEnvVars\<close> has status Info and its
  payload maps \<open>NEW_RELIC_APP_NAME\<close> to a non-empty string, \<open>Execute\<close> returns
  status Success with a payload of exactly one element, which carries that name
  (and the variable's name as its source). The result is the same for every other
  content of the upstream map and whatever the blob methods do: neither the system
  properties nor the configuration payload is consulted.
\<close>

theorem AppName_Execute_env_var_first:
  assumes "Status (upstreamAt upstream ''Base/Env/CollectEnvVars'') = Info"
    and "Payload (upstreamAt upstream ''Base/Env/CollectEnvVars'') = PMapStringString envVars"
    and "map_of envVars ''NEW_RELIC_APP_NAME'' = Some appname"
    and "appname \<noteq> []"
  shows "Status (AppName_Execute T options upstream) = Success \<and>
         Payload (AppName_Execute T options upstream) =
           PAppNameInfos [\<lparr>Name = appname, FilePath = ''NEW_RELIC_APP_NAME''\<rparr>] \<and>
         (\<forall>T' options' upstream'.
            upstream' ''Base/Env/CollectEnvVars'' = upstream ''Base/Env/CollectEnvVars'' \<longrightarrow>
            AppName_Execute T' options' upstream' = AppName_Execute T options upstream)"
proof -
  have env: "getAppNameFromEnvVar upstream = \<lparr>Name = appname, FilePath = ''NEW_RELIC_APP_NAME''\<rparr>"
    using assms by (simp add: getAppNameFromEnvVar_def appNameEnvVarKey_def)
  have same: "getAppNameFromEnvVar upstream' = getAppNameFromEnvVar upstream"
    if "upstream' ''Base/Env/CollectEnvVars'' = upstream ''Base/Env/CollectEnvVars''" for upstream'
    using that by (simp add: getAppNameFromEnvVar_def upstreamAt_def)
  have res: "AppName_Execute T' options' upstream' =
      zeroResult\<lparr>Status := Success,
        Summary := ''A unique application name was found through the New Relic App name environment variable: '' @ appname,
        Payload := PAppNameInfos [\<lparr>Name = appname, FilePath = ''NEW_RELIC_APP_NAME''\<rparr>]\<rparr>"
    if "getAppNameFromEnvVar upstream' = getAppNameFromEnvVar upstream" for T' options' upstream'
    using that env assms(4) by (simp add: AppName_Execute_def)
  have here: "AppName_Execute T options upstream =
      zeroResult\<lparr>Status := Success,
        Summary := ''A unique application name was found through the New Relic App name environment variable: '' @ appname,
        Payload := PAppNameInfos [\<lparr>Name = appname, FilePath = ''NEW_RELIC_APP_NAME''\<rparr>]\<rparr>"
    by (rule res) simp
  show ?thesis
  proof (intro conjI allI impI)
    show "Status (AppName_Execute T options upstream) = Success"
      unfolding here by (simp add: zeroResult_def)
    show "Payload (AppName_Execute T options upstream) =
        PAppNameInfos [\<lparr>Name = appname, FilePath = ''NEW_RELIC_APP_NAME''\<rparr>]"
      unfolding here by simp
  next
    fix T' options' upstream'
    assume "upstream' ''Base/Env/CollectEnvVars'' = upstream ''Base/Env/CollectEnvVars''"
    then have "getAppNameFromEnvVar upstream' = getAppNameFromEnvVar upstream"
      by (rule same)
    then show "AppName_Execute T' options' upstream' = AppName_Execute T options upstream"
      unfolding here by (rule res)
  qed
qed

theorem AppName_Execute_env_var_first_witness:
  "Status (AppName_Execute exampleTasksPkg [] exampleUpstream) = Success \<and>
   Payload (AppName_Execute exampleTasksPkg [] exampleUpstream) =
     PAppNameInfos [\<lparr>Name = ''shop'', FilePath = ''NEW_RELIC_APP_NAME''\<rparr>] \<and>
   AppName_Execute exampleTasksPkg [] (exampleUpstream(''Base/Env/CollectSysProps'' := None)) =
     AppName_Execute exampleTasksPkg [] exampleUpstream"
proof -
  have h1: "Status (upstreamAt exampleUpstream ''Base/Env/CollectEnvVars'') = Info"
    by (simp add: upstreamAt_def exampleUpstream_def zeroResult_def)
  have h2: "Payload (upstreamAt exampleUpstream ''Base/Env/CollectEnvVars'') =
      PMapStringString [(''PATH'', ''/usr/bin''), (''NEW_RELIC_APP_NAME'', ''shop'')]"
    by (simp add: upstreamAt_def exampleUpstream_def zeroResult_def)
  have h3: "map_of [(''PATH'', ''/usr/bin''), (''NEW_RELIC_APP_NAME'', ''shop'')] ''NEW_RELIC_APP_NAME'' = Some ''shop''"
    by simp
  have h4: "''shop'' \<noteq> []"
    by simp
  have u: "(exampleUpstream(''Base/Env/CollectSysProps'' := None)) ''Base/Env/CollectEnvVars'' =
      exampleUpstream ''Base/Env/CollectEnvVars''"
    by simp
  show ?thesis
    using AppName_Execute_env_var_first [OF h1 h2 h3 h4, of exampleTasksPkg "[]"] u
    by blast
qed

text \<open>
  C10. Whenever the upstream result of \<open>DotNet/Agent/Installed\<close> has a status other
  than Success, \<open>Execute\<close> returns status None; its summary is the no-agent text when
  the upstream summary is \<open>NoAgentDetectedSummary\<close> and the upstream-failed text
  otherwise. The result is the same for every other content of the upstream map, so
  the payload of \<open>Base/Config/Validate\<close> is never inspected.
\<close>


theorem DotNetConfigAgent_Execute_not_installed:
  assumes "Status (upstreamAt upstream ''DotNet/Agent/Installed'') \<noteq> Success"
  shows "Status (DotNetConfigAgent_Execute T options upstream) = NoneStatus \<and>
         Summary (DotNetConfigAgent_Execute T options upstream) =
           (if Summary (upstreamAt upstream ''DotNet/Agent/Installed'') = NoAgentDetectedSummary T
            then NoAgentUpstreamSummary T @ ''DotNet/Agent/Installed''
            else UpstreamFailedSummary T @ ''DotNet/Agent/Installed'') \<and>
         Payload (DotNetConfigAgent_Execute T options upstream) = PNil \<and>
         (\<forall>options' upstream'.
            upstream' ''DotNet/Agent/Installed'' = upstream ''DotNet/Agent/Installed'' \<longrightarrow>
            DotNetConfigAgent_Execute T options' upstream' = DotNetConfigAgent_Execute T options upstream)"
proof -
  have same: "upstreamAt upstream' ''DotNet/Agent/Installed'' = upstreamAt upstream ''DotNet/Agent/Installed''"
    if "upstream' ''DotNet/Agent/Installed'' = upstream ''DotNet/Agent/Installed''" for upstream'
    using that by (simp add: upstreamAt_def)
  have res: "DotNetConfigAgent_Execute T options' upstream' =
      zeroResult\<lparr>Status := NoneStatus,
        Summary := (if Summary (upstreamAt upstream ''DotNet/Agent/Installed'') = NoAgentDetectedSummary T
                    then NoAgentUpstreamSummary T @ ''DotNet/Agent/Installed''
                    else UpstreamFailedSummary T @ ''DotNet/Agent/Installed'')\<rparr>"
    if "upstreamAt upstream' ''DotNet/Agent/Installed'' = upstreamAt upstream ''DotNet/Agent/Installed''"
    for options' upstream'
    using that assms by (simp add: DotNetConfigAgent_Execute_def)
  have here: "DotNetConfigAgent_Execute T options upstream =
      zeroResult\<lparr>Status := NoneStatus,
        Summary := (if Summary (upstreamAt upstream ''DotNet/Agent/Installed'') = NoAgentDetectedSummary T
                    then NoAgentUpstreamSummary T @ ''DotNet/Agent/Installed''
                    else UpstreamFailedSummary T @ ''DotNet/Agent/Installed'')\<rparr>"
    by (rule res) simp
  show ?thesis
  proof (intro conjI allI impI)
    show "Status (DotNetConfigAgent_Execute T options upstream) = NoneStatus"
      unfolding here by simp
    show "Summary (DotNetConfigAgent_Execute T options upstream) =
        (if Summary (upstreamAt upstream ''DotNet/Agent/Installed'') = NoAgentDetectedSummary T
         then NoAgentUpstreamSummary T @ ''DotNet/Agent/Installed''
         else UpstreamFailedSummary T @ ''DotNet/Agent/Installed'')"
      unfolding here by simp
    show "Payload (DotNetConfigAgent_Execute T options upstream) = PNil"
      unfolding here by (simp add: zeroResult_def)
  next
    fix options' upstream'
    assume "upstream' ''DotNet/Agent/Installed'' = upstream ''DotNet/Agent/Installed''"
    then have "upstreamAt upstream' ''DotNet/Agent/Installed'' = upstreamAt upstream ''DotNet/Agent/Installed''"
      by (rule same)
    then show "DotNetConfigAgent_Execute T options' upstream' = DotNetConfigAgent_Execute T options upstream"
      unfolding here by (rule res)
  qed
qed

theorem DotNetConfigAgent_Execute_not_installed_witness:
  "Status (DotNetConfigAgent_Execute exampleTasksPkg [] exampleUpstream) = NoneStatus \<and>
   Summary (DotNetConfigAgent_Execute exampleTasksPkg [] exampleUpstream) =
     ''No agent detected by upstream task: DotNet/Agent/Installed'' \<and>
   DotNetConfigAgent_Execute exampleTasksPkg [] (exampleUpstream(''Base/Config/Validate'' := None)) =
     DotNetConfigAgent_Execute exampleTasksPkg [] exampleUpstream"
proof -
  have h: "Status (upstreamAt exampleUpstream ''DotNet/Agent/Installed'') \<noteq> Success"
    by (simp add: upstreamAt_def exampleUpstream_def zeroResult_def)
  have s: "Summary (upstreamAt exampleUpstream ''DotNet/Agent/Installed'') = NoAgentDetectedSummary exampleTasksPkg"
    by (simp add: upstreamAt_def exampleUpstream_def zeroResult_def exampleTasksPkg_def)
  have n: "NoAgentUpstreamSummary exampleTasksPkg @ ''DotNet/Agent/Installed'' =
      ''No agent detected by upstream task: DotNet/Agent/Installed''"
    by (simp add: exampleTasksPkg_def)
  have u: "(exampleUpstream(''Base/Config/Validate'' := None)) ''DotNet/Agent/Installed'' =
      exampleUpstream ''DotNet/Agent/Installed''"
    by simp
  note t = DotNetConfigAgent_Execute_not_installed [OF h, of exampleTasksPkg "[]"]
  have a: "Status (DotNetConfigAgent_Execute exampleTasksPkg [] exampleUpstream) = NoneStatus"
    by (rule t [THEN conjunct1])
  have b: "Summary (DotNetConfigAgent_Execute exampleTasksPkg [] exampleUpstream) =
      ''No agent detected by upstream task: DotNet/Agent/Installed''"
    using t [THEN conjunct2, THEN conjunct1] unfolding s n by simp
  have c: "DotNetConfigAgent_Execute exampleTasksPkg [] (exampleUpstream(''Base/Config/Validate'' := None)) =
      DotNetConfigAgent_Execute exampleTasksPkg [] exampleUpstream"
    using t [THEN conjunct2, THEN conjunct2, THEN conjunct2, rule_format,
        of "exampleUpstream(''Base/Config/Validate'' := None)" "[]"] u
    by (rule mp [OF impI])
  show ?thesis
    using a b c by (intro conjI)
qed

section \<open>Properties of the uploader\<close>

lemma uploadLoop_all_ok:
  "map (\<lambda>f. uploadFile deps endpoint f attachmentKey) files = map Inr us \<Longrightarrow>
   uploadLoop deps endpoint attachmentKey files urls tried = (tried @ files, Inr (urls @ us))"
proof (induction files arbitrary: urls tried us)
  case Nil
  then show ?case by simp
next
  case (Cons f files)
  then obtain u us' where us: "us = u # us'" and f: "uploadFile deps endpoint f attachmentKey = Inr u"
    and rest: "map (\<lambda>f. uploadFile deps endpoint f attachmentKey) files = map Inr us'"
    by (cases us) auto
  show ?case
    using Cons.IH [OF rest, of "urls @ [u]" "tried @ [f]"] by (simp add: f us)
qed

lemma uploadLoop_first_failure:
  "map (\<lambda>f. uploadFile deps endpoint f attachmentKey) before = map Inr us \<Longrightarrow>
   uploadFile deps endpoint file attachmentKey = Inl err \<Longrightarrow>
   uploadLoop deps endpoint attachmentKey (before @ file # after) urls tried =
     (tried @ before @ [file], Inl err)"
proof (induction before arbitrary: urls tried us)
  case Nil
  then show ?case by simp
next
  case (Cons f before)
  then obtain u us' where us: "us = u # us'" and f: "uploadFile deps endpoint f attachmentKey = Inr u"
    and rest: "map (\<lambda>f. uploadFile deps endpoint f attachmentKey) before = map Inr us'"
    by (cases us) auto
  show ?case
    using Cons.IH [OF rest Cons.prems(2), of "urls @ [u]" "tried @ [f]"] by (simp add: f)
qed

lemma uploadLoop_Inr:
  "snd (uploadLoop deps endpoint attachmentKey files urls tried) = Inr r \<Longrightarrow>
   \<exists>us. r = urls @ us \<and> map (\<lambda>f. uploadFile deps endpoint f attachmentKey) files = map Inr us"
proof (induction files arbitrary: urls tried)
  case Nil
  then show ?case by simp
next
  case (Cons f files)
  show ?case
  proof (cases "uploadFile deps endpoint f attachmentKey")
    case (Inl e)
    with Cons.prems show ?thesis by simp
  next
    case (Inr u)
    with Cons.prems have "snd (uploadLoop deps endpoint attachmentKey files (urls @ [u]) (tried @ [f])) = Inr r"
      by simp
    from Cons.IH [OF this] obtain us where "r = (urls @ [u]) @ us"
      and "map (\<lambda>f. uploadFile deps endpoint f attachmentKey) files = map Inr us"
      by blast
    then show ?thesis
      using Inr by (intro exI [of _ "u # us"]) simp
  qed
qed

text \<open>The model agrees with the cases of \<open>Test_uploadFile\<close> and \<open>Test_uploadFilesToAccount\<close>.\<close>

lemma uploadFile_tests:
  "uploadFile (mockAttachDeps (Inr ''mock'') ''/success'' (Inr ''https://newrelic.com''))
     ''upload_s3'' jsonfile ''testKey'' = Inr ''https://newrelic.com''"
  "isl (uploadFile (mockAttachDeps (Inl ''Error uploading at Reader'') ''/success'' (Inr ''https://newrelic.com''))
     ''upload_s3'' jsonfile ''testKey'')"
  "isl (uploadFile (mockAttachDeps (Inr ''mock'') ''/error'' (Inr ''https://newrelic.com''))
     ''upload_s3'' jsonfile ''testKey'')"
  "isl (uploadFile (mockAttachDeps (Inr ''mock'') ''/success'' (Inl ''URL Error''))
     ''upload_s3'' jsonfile ''testKey'')"
  by (simp_all add: uploadFile_def mockAttachDeps_def testServer_def mockWrapper_def)

lemma uploadFilesToAccount_test:
  "snd (uploadFilesToAccount (mockAttachDeps (Inr ''mock'') ''/success'' (Inr ''https://newrelic.com''))
     ''upload_s3'' [jsonfile] ''testKey'') = Inr [''https://newrelic.com'']"
  by (simp add: uploadFilesToAccount_def uploadFile_def mockAttachDeps_def testServer_def mockWrapper_def)



text \<open>
  C4. For every batch of files: the batch returns a list of URLs exactly when every
  file's upload succeeds, and the list is then the files' URLs, one per input file in
  the order of the input; when a file fails after the files before it succeeded, the
  batch stops there (the files after it are never tried), returns that file's
  error and reports no URL; and a file fails exactly when its URL request, the
  construction of its reader or the transfer returns an error, or the response's
  status is not 2xx.
\<close>

theorem uploadFilesToAccount_all_or_error:
  "(snd (uploadFilesToAccount deps endpoint filesToUpload attachmentKey) = Inr urls \<longleftrightarrow>
      map (\<lambda>file. uploadFile deps endpoint file attachmentKey) filesToUpload = map Inr urls) \<and>
   (\<forall>before file after us err.
      filesToUpload = before @ file # after \<and>
      map (\<lambda>file. uploadFile deps endpoint file attachmentKey) before = map Inr us \<and>
      uploadFile deps endpoint file attachmentKey = Inl err \<longrightarrow>
      uploadFilesToAccount deps endpoint filesToUpload attachmentKey = (before @ [file], Inl err)) \<and>
   (\<forall>file err.
      uploadFile deps endpoint file attachmentKey = Inl err \<longleftrightarrow>
        (\<exists>e. GetUrlsToReturn deps attachmentKey file = Inl e \<and> err = UrlRequestError e) \<or>
        (\<exists>url. GetUrlsToReturn deps attachmentKey file = Inr url \<and>
           ((\<exists>e. GetReader deps file = Inl e \<and> err = ReaderError e) \<or>
            (\<exists>reader. GetReader deps file = Inr reader \<and>
               ((\<exists>e. makeRequest deps (GetWrapper deps reader (GetFileSize deps file) attachmentKey url) = Inl e \<and>
                     err = TransportError e) \<or>
                (\<exists>code. makeRequest deps (GetWrapper deps reader (GetFileSize deps file) attachmentKey url) = Inr code \<and>
                     \<not> (200 \<le> code \<and> code < 300) \<and> err = BadStatus code))))))"
proof (intro conjI allI impI)
  show "snd (uploadFilesToAccount deps endpoint filesToUpload attachmentKey) = Inr urls \<longleftrightarrow>
      map (\<lambda>file. uploadFile deps endpoint file attachmentKey) filesToUpload = map Inr urls"
  proof
    assume "snd (uploadFilesToAccount deps endpoint filesToUpload attachmentKey) = Inr urls"
    from uploadLoop_Inr [OF this [unfolded uploadFilesToAccount_def]]
    show "map (\<lambda>file. uploadFile deps endpoint file attachmentKey) filesToUpload = map Inr urls"
      by auto
  next
    assume "map (\<lambda>file. uploadFile deps endpoint file attachmentKey) filesToUpload = map Inr urls"
    from uploadLoop_all_ok [OF this, of "[]" "[]"]
    show "snd (uploadFilesToAccount deps endpoint filesToUpload attachmentKey) = Inr urls"
      by (simp add: uploadFilesToAccount_def)
  qed
next
  fix pre f post us err
  assume a: "filesToUpload = pre @ f # post \<and>
      map (\<lambda>file. uploadFile deps endpoint file attachmentKey) pre = map Inr us \<and>
      uploadFile deps endpoint f attachmentKey = Inl err"
  then have "uploadLoop deps endpoint attachmentKey (pre @ f # post) [] [] = ([] @ pre @ [f], Inl err)"
    by (intro uploadLoop_first_failure) auto
  with a show "uploadFilesToAccount deps endpoint filesToUpload attachmentKey = (pre @ [f], Inl err)"
    by (simp add: uploadFilesToAccount_def)
next
  fix f err
  show "uploadFile deps endpoint f attachmentKey = Inl err \<longleftrightarrow>
        (\<exists>e. GetUrlsToReturn deps attachmentKey f = Inl e \<and> err = UrlRequestError e) \<or>
        (\<exists>url. GetUrlsToReturn deps attachmentKey f = Inr url \<and>
           ((\<exists>e. GetReader deps f = Inl e \<and> err = ReaderError e) \<or>
            (\<exists>reader. GetReader deps f = Inr reader \<and>
               ((\<exists>e. makeRequest deps (GetWrapper deps reader (GetFileSize deps f) attachmentKey url) = Inl e \<and>
                     err = TransportError e) \<or>
                (\<exists>code. makeRequest deps (GetWrapper deps reader (GetFileSize deps f) attachmentKey url) = Inr code \<and>
                     \<not> (200 \<le> code \<and> code < 300) \<and> err = BadStatus code)))))"
    by (auto simp: uploadFile_def split: sum.splits if_splits)
qed



theorem uploadFilesToAccount_all_or_error_witness:
  "uploadFilesToAccount secondUrlFailsDeps ''upload_s3'' [jsonfile, zipfile2] ''testKey'' =
     ([jsonfile, zipfile2], Inl (UrlRequestError ''URL Error''))"
proof -
  have f1: "map (\<lambda>file. uploadFile secondUrlFailsDeps ''upload_s3'' file ''testKey'') [jsonfile] =
      map Inr [''https://newrelic.com'']"
    by (simp add: uploadFile_def secondUrlFailsDeps_def jsonfile_def testServer_def mockWrapper_def)
  have f2: "uploadFile secondUrlFailsDeps ''upload_s3'' zipfile2 ''testKey'' = Inl (UrlRequestError ''URL Error'')"
    by (simp add: uploadFile_def secondUrlFailsDeps_def zipfile2_def)
  have pre: "[jsonfile, zipfile2] = [jsonfile] @ zipfile2 # [] \<and>
      map (\<lambda>file. uploadFile secondUrlFailsDeps ''upload_s3'' file ''testKey'') [jsonfile] =
        map Inr [''https://newrelic.com''] \<and>
      uploadFile secondUrlFailsDeps ''upload_s3'' zipfile2 ''testKey'' = Inl (UrlRequestError ''URL Error'')"
    using f1 f2 by simp
  have "uploadFilesToAccount secondUrlFailsDeps ''upload_s3'' [jsonfile, zipfile2] ''testKey'' =
      ([jsonfile] @ [zipfile2], Inl (UrlRequestError ''URL Error''))"
    by (rule uploadFilesToAccount_all_or_error
      [of secondUrlFailsDeps "''upload_s3''" "[jsonfile, zipfile2]" "''testKey''" "[]",
       THEN conjunct2, THEN conjunct1, rule_format, OF pre])
  then show ?thesis
    by simp
qed


text \<open>
  C7. The endpoint is the runtime flag's value when that is not empty, else the
  persisted configuration value when that is not empty, else
  \<open>http://localhost:3000/attachments\<close>; the three rows of the source's test table
  hold.
\<close>

theorem getAttachmentsEndpoint_precedence:
  "(Flags_AttachmentEndpoint cfg \<noteq> [] \<longrightarrow>
      getAttachmentsEndpoint cfg = Flags_AttachmentEndpoint cfg) \<and>
   (Flags_AttachmentEndpoint cfg = [] \<and> AttachmentEndpoint cfg \<noteq> [] \<longrightarrow>
      getAttachmentsEndpoint cfg = AttachmentEndpoint cfg) \<and>
   (Flags_AttachmentEndpoint cfg = [] \<and> AttachmentEndpoint cfg = [] \<longrightarrow>
      getAttachmentsEndpoint cfg = ''http://localhost:3000/attachments'') \<and>
   list_all getAttachmentsEndpoint_test_passes getAttachmentsEndpoint_tests"
  by (simp add: getAttachmentsEndpoint_def getAttachmentsEndpoint_test_passes_def
      getAttachmentsEndpoint_tests_def)

theorem getAttachmentsEndpoint_precedence_witness:
  "getAttachmentsEndpoint
     \<lparr>Flags_AttachmentEndpoint = ''http://diag.datanerd.us/attachments'',
      AttachmentEndpoint = ''http://staging.example/attachments''\<rparr> =
   ''http://diag.datanerd.us/attachments''"
  using getAttachmentsEndpoint_precedence
    [of "\<lparr>Flags_AttachmentEndpoint = ''http://diag.datanerd.us/attachments'',
          AttachmentEndpoint = ''http://staging.example/attachments''\<rparr>", THEN conjunct1]
  by simp

section \<open>Properties of the collector\<close>

lemma nameLoop_Some:
  "nameLoop deps i names envelope = Some named \<Longrightarrow>
   EnvPath named = EnvPath envelope \<and> Stream named = Stream envelope \<and>
   Identifier named = Identifier envelope \<and> StoreName deps named \<notin> names"
proof (induction deps i names envelope rule: nameLoop.induct)
  case (1 deps i names envelope)
  show ?case
  proof (cases "i < 50 \<and> StoreName deps envelope \<in> names")
    case True
    with "1.prems" have "nameLoop deps (i + 1) names (IncrementDuplicateCount envelope) = Some named"
      by (simp add: nameLoop.simps [of deps i])
    with "1.IH" True show ?thesis
      by (simp add: IncrementDuplicateCount_def)
  next
    case False
    with "1.prems" show ?thesis
      by (auto simp: nameLoop.simps [of deps i] split: if_splits)
  qed
qed

lemma pathsFresh_snoc:
  "pathsFresh (accepted @ [x]) \<longleftrightarrow>
   pathsFresh accepted \<and> (Stream x = None \<longrightarrow> EnvPath x \<notin> EnvPath ` set accepted)"
proof
  assume a: "pathsFresh (accepted @ [x])"
  have "pathsFresh accepted"
    unfolding pathsFresh_def
  proof (intro allI impI)
    fix pre e post
    assume "accepted = pre @ e # post \<and> Stream e = None"
    then have "accepted @ [x] = pre @ e # (post @ [x]) \<and> Stream e = None"
      by simp
    with a show "EnvPath e \<notin> EnvPath ` set pre"
      unfolding pathsFresh_def by blast
  qed
  moreover have "Stream x = None \<longrightarrow> EnvPath x \<notin> EnvPath ` set accepted"
    using a unfolding pathsFresh_def by (metis append_Nil2 append_Cons append_Nil)
  ultimately show "pathsFresh accepted \<and> (Stream x = None \<longrightarrow> EnvPath x \<notin> EnvPath ` set accepted)"
    by blast
next
  assume a: "pathsFresh accepted \<and> (Stream x = None \<longrightarrow> EnvPath x \<notin> EnvPath ` set accepted)"
  show "pathsFresh (accepted @ [x])"
    unfolding pathsFresh_def
  proof (intro allI impI)
    fix pre e post
    assume b: "accepted @ [x] = pre @ e # post \<and> Stream e = None"
    show "EnvPath e \<notin> EnvPath ` set pre"
    proof (cases post rule: rev_cases)
      case Nil
      with b have "accepted = pre" "x = e" by auto
      with a b show ?thesis by simp
    next
      case (snoc post' y)
      with b have "accepted = pre @ e # post'" by simp
      with a b show ?thesis unfolding pathsFresh_def by blast
    qed
  qed
qed

lemma collectorInv_processEnvelope:
  assumes "collectorInv st"
  shows "collectorInv (processEnvelope deps taskId st envelope)"
proof (cases "nameLoop deps 1 (fileList st) envelope")
  case None
  with assms show ?thesis
    by (simp del: One_nat_def add: processEnvelope_def split: sum.splits)
next
  case (Some named)
  from nameLoop_Some [OF Some] have n: "EnvPath named = EnvPath envelope" "Stream named = Stream envelope"
    by simp_all
  show ?thesis
  proof (cases "processEnvelope deps taskId st envelope = st")
    case True
    with assms show ?thesis by simp
  next
    case False
    then have new: "processEnvelope deps taskId st envelope =
        \<lparr>fileList = insert (StoreName deps named) (fileList st),
         pathList = insert (EnvPath named) (pathList st),
         taskFiles = taskFiles st @ [if Identifier named = [] then named\<lparr>Identifier := taskId\<rparr> else named]\<rparr>"
      and fresh: "\<not> (Stream envelope = None \<and> EnvPath envelope \<in> pathList st)"
      by (auto simp del: One_nat_def simp add: processEnvelope_def Some split: sum.splits if_splits)
    define x where "x = (if Identifier named = [] then named\<lparr>Identifier := taskId\<rparr> else named)"
    have x: "EnvPath x = EnvPath envelope" "Stream x = Stream envelope"
      using n by (simp_all add: x_def)
    have notin: "Stream x = None \<longrightarrow> EnvPath x \<notin> EnvPath ` set (taskFiles st)"
      using fresh assms x unfolding collectorInv_def by auto
    have "collectorInv \<lparr>fileList = insert (StoreName deps named) (fileList st),
         pathList = insert (EnvPath named) (pathList st), taskFiles = taskFiles st @ [x]\<rparr>"
      using assms notin x n unfolding collectorInv_def
      by (auto simp: pathsFresh_snoc)
    then show ?thesis
      unfolding new x_def .
  qed
qed

lemma collectorInv_envelopes:
  "collectorInv st \<Longrightarrow> collectorInv (foldl (processEnvelope deps taskId) st envelopes)"
  by (induction envelopes arbitrary: st) (simp_all add: collectorInv_processEnvelope)

lemma collectorInv_results:
  "collectorInv st \<Longrightarrow> collectorInv (foldl (processResult deps) st channel)"
  by (induction channel arbitrary: st) (simp_all add: processResult_def collectorInv_envelopes)

lemma collectorInv_collect: "collectorInv (collect deps channel)"
  unfolding collect_def
  by (rule collectorInv_results) (simp add: collectorInv_def emptyCollectorState_def pathsFresh_def)

lemma nameLoop_scan:
  assumes inj: "inj_on g {0..<50}" and k: "k \<le> 49"
  shows "duplicateCount envelope \<le> k \<Longrightarrow>
     (\<And>c. c < 50 \<Longrightarrow> StoreNameOf deps (EnvPath envelope) c = g c) \<Longrightarrow>
     nameLoop deps i (g ` {0..<k}) envelope =
       (if k - duplicateCount envelope < 50 - i then Some (envelope\<lparr>duplicateCount := k\<rparr>) else None)"
proof (induction "k - duplicateCount envelope" arbitrary: i envelope)
  case 0
  then have d: "duplicateCount envelope = k" by simp
  have "StoreName deps envelope = g k"
    using "0.prems"(2) [of k] k d by (simp add: StoreName_def)
  moreover have "g k \<notin> g ` {0..<k}"
  proof
    assume "g k \<in> g ` {0..<k}"
    then obtain x where "x < k" "g k = g x" by auto
    with inj_onD [OF inj, of k x] k show False by simp
  qed
  ultimately show ?case
    using d by (simp add: nameLoop.simps [of deps i])
next
  case (Suc n)
  then have d: "duplicateCount envelope < k" by simp
  have "StoreName deps envelope = g (duplicateCount envelope)"
    using Suc.prems(2) [of "duplicateCount envelope"] k d by (simp add: StoreName_def)
  then have taken: "StoreName deps envelope \<in> g ` {0..<k}"
    using d by simp
  have n: "n = k - duplicateCount (IncrementDuplicateCount envelope)"
    using Suc.hyps(2) by (simp add: IncrementDuplicateCount_def)
  have path: "EnvPath (IncrementDuplicateCount envelope) = EnvPath envelope"
    by (simp add: IncrementDuplicateCount_def)
  have le: "duplicateCount (IncrementDuplicateCount envelope) \<le> k"
    using d by (simp add: IncrementDuplicateCount_def)
  have "nameLoop deps (i + 1) (g ` {0..<k}) (IncrementDuplicateCount envelope) =
      (if k - duplicateCount (IncrementDuplicateCount envelope) < 50 - (i + 1)
       then Some ((IncrementDuplicateCount envelope)\<lparr>duplicateCount := k\<rparr>) else None)"
    by (rule Suc.hyps(1) [OF n le]) (simp add: path Suc.prems(2))
  then have step: "nameLoop deps (i + 1) (g ` {0..<k}) (IncrementDuplicateCount envelope) =
      (if n < 50 - (i + 1) then Some (envelope\<lparr>duplicateCount := k\<rparr>) else None)"
    unfolding n [symmetric] by (simp add: IncrementDuplicateCount_def)
  show ?case
    using taken step Suc.hyps(2) by (auto simp: nameLoop.simps [of deps i])
qed

lemma processEnvelope_sharesNames:
  assumes inj: "inj_on g {0..<50}" and k: "k \<le> 49"
    and e: "sharesNames deps g envelope"
    and fl: "fileList st = g ` {0..<k}"
    and fresh: "EnvPath envelope \<notin> pathList st"
  shows "processEnvelope deps taskId st envelope =
     (if k < 49 then
        \<lparr>fileList = g ` {0..<k + 1},
         pathList = insert (EnvPath envelope) (pathList st),
         taskFiles = taskFiles st @
           [if Identifier envelope = [] then envelope\<lparr>duplicateCount := k, Identifier := taskId\<rparr>
            else envelope\<lparr>duplicateCount := k\<rparr>]\<rparr>
      else st)"
proof -
  have nm: "StoreNameOf deps (EnvPath envelope) c = g c" if "c < 50" for c
    using e that by (simp add: sharesNames_def list_all_iff)
  have "nameLoop deps 1 (g ` {0..<k}) envelope =
      (if k - duplicateCount envelope < 50 - 1 then Some (envelope\<lparr>duplicateCount := k\<rparr>) else None)"
    by (rule nameLoop_scan [OF inj k]) (use e nm in \<open>simp_all add: sharesNames_def\<close>)
  then have loop: "nameLoop deps 1 (g ` {0..<k}) envelope =
      (if k < 49 then Some (envelope\<lparr>duplicateCount := k\<rparr>) else None)"
    using e by (simp add: sharesNames_def)
  have name: "StoreName deps (envelope\<lparr>duplicateCount := k\<rparr>) = g k"
    using nm [of k] k by (simp add: StoreName_def)
  have img: "insert (g k) (g ` {0..<k}) = g ` {0..<k + 1}"
    by (auto simp: less_Suc_eq)
  show ?thesis
    using e fresh
    by (simp del: One_nat_def add: processEnvelope_def sharesNames_def loop name fl img)
qed

lemma foldl_processEnvelope_sharesNames:
  assumes inj: "inj_on g {0..<50}"
  shows "k \<le> 49 \<Longrightarrow> list_all (sharesNames deps g) envelopes \<Longrightarrow>
     distinct (map EnvPath envelopes) \<Longrightarrow>
     EnvPath ` set envelopes \<inter> pathList st = {} \<Longrightarrow>
     fileList st = g ` {0..<k} \<Longrightarrow>
     map duplicateCount (taskFiles (foldl (processEnvelope deps taskId) st envelopes)) =
       map duplicateCount (taskFiles st) @ [k..<min (k + length envelopes) 49] \<and>
     map EnvPath (taskFiles (foldl (processEnvelope deps taskId) st envelopes)) =
       map EnvPath (taskFiles st) @ take (49 - k) (map EnvPath envelopes)"
proof (induction envelopes arbitrary: k st)
  case Nil
  then show ?case by simp
next
  case (Cons e es)
  have e: "sharesNames deps g e" and es: "list_all (sharesNames deps g) es"
    using Cons.prems(2) by simp_all
  have fresh: "EnvPath e \<notin> pathList st"
    using Cons.prems(4) by auto
  note step = processEnvelope_sharesNames [OF inj Cons.prems(1) e Cons.prems(5) fresh, of taskId]
  show ?case
  proof (cases "k < 49")
    case True
    define st' where "st' = processEnvelope deps taskId st e"
    have st': "fileList st' = g ` {0..<k + 1}" "pathList st' = insert (EnvPath e) (pathList st)"
      "map duplicateCount (taskFiles st') = map duplicateCount (taskFiles st) @ [k]"
      "map EnvPath (taskFiles st') = map EnvPath (taskFiles st) @ [EnvPath e]"
      using True step by (simp_all add: st'_def)
    have disj: "EnvPath ` set es \<inter> pathList st' = {}"
      using Cons.prems(3,4) st'(2) by auto
    have "k + 1 \<le> 49" using True by simp
    from Cons.IH [OF this es _ disj st'(1)] Cons.prems(3)
    have ih: "map duplicateCount (taskFiles (foldl (processEnvelope deps taskId) st' es)) =
        map duplicateCount (taskFiles st') @ [k + 1..<min (k + 1 + length es) 49]"
      "map EnvPath (taskFiles (foldl (processEnvelope deps taskId) st' es)) =
        map EnvPath (taskFiles st') @ take (49 - (k + 1)) (map EnvPath es)"
      by simp_all
    have "k < min (k + 1 + length es) 49"
      using True by simp
    from upt_conv_Cons [OF this]
    have upt: "[k..<min (k + length (e # es)) 49] = k # [k + 1..<min (k + 1 + length es) 49]"
      by simp
    have tk: "take (49 - k) (map EnvPath (e # es)) = EnvPath e # take (49 - (k + 1)) (map EnvPath es)"
      using True by (simp add: take_Cons')
    show ?thesis
      unfolding upt tk using ih st'(3,4) by (simp add: st'_def)
  next
    case False
    with Cons.prems(1) have k: "k = 49" by simp
    have same: "processEnvelope deps taskId st e = st"
      using step k by simp
    have disj: "EnvPath ` set es \<inter> pathList st = {}"
      using Cons.prems(4) by auto
    from Cons.IH [OF Cons.prems(1) es _ disj Cons.prems(5)] Cons.prems(3)
    show ?thesis
      using k by (simp add: same)
  qed
qed

lemma decimal_not_Nil: "decimal n \<noteq> []"
  by (subst decimal.simps) simp

lemma digit_char_inj:
  assumes "(a::nat) < 10" "(b::nat) < 10" "char_of (48 + a) = (char_of (48 + b) :: char)"
  shows "a = b"
proof -
  have "of_char (char_of (48 + a) :: char) = (of_char (char_of (48 + b) :: char) :: nat)"
    using assms(3) by simp
  then have "(48 + a) mod 256 = (48 + b) mod 256"
    by (simp only: of_char_of)
  with assms(1,2) show ?thesis by simp
qed

lemma decimal_inj: "decimal n = decimal m \<Longrightarrow> n = m"
proof (induction n arbitrary: m rule: decimal.induct)
  case (1 n)
  show ?case
  proof (cases "n < 10")
    case n: True
    show ?thesis
    proof (cases "m < 10")
      case True
      with n "1.prems" have "char_of (48 + n) = (char_of (48 + m) :: char)"
        by (simp add: decimal.simps [of n] decimal.simps [of m])
      with n True show ?thesis
        by (intro digit_char_inj)
    next
      case False
      with n "1.prems" have "length (decimal (m div 10) @ [char_of (48 + m mod 10)]) = 1"
        by (simp add: decimal.simps [of n] decimal.simps [of m])
      with decimal_not_Nil [of "m div 10"] show ?thesis by simp
    qed
  next
    case n: False
    show ?thesis
    proof (cases "m < 10")
      case True
      with n "1.prems" have "length (decimal (n div 10) @ [char_of (48 + n mod 10)]) = 1"
        by (simp add: decimal.simps [of n] decimal.simps [of m])
      with decimal_not_Nil [of "n div 10"] show ?thesis by simp
    next
      case False
      with n "1.prems" have eq: "decimal (n div 10) = decimal (m div 10)"
        and c: "char_of (48 + n mod 10) = (char_of (48 + m mod 10) :: char)"
        by (simp_all add: decimal.simps [of n] decimal.simps [of m])
      from "1.IH" [OF n eq] have d: "n div 10 = m div 10" .
      have "n mod 10 < 10" "m mod 10 < 10" by simp_all
      with c have "n mod 10 = m mod 10"
        by (intro digit_char_inj)
      with d show ?thesis
        by (metis div_mult_mod_eq)
    qed
  qed
qed

lemma exampleNames_inj: "inj_on exampleNames {0..<50}"
  by (auto simp: inj_on_def exampleNames_def dest: decimal_inj split: if_splits)

lemma baseName_append:
  assumes "CHR ''/'' \<notin> set name"
  shows "baseName (dir @ CHR ''/'' # name) = name"
proof -
  have "takeWhile (\<lambda>c. c \<noteq> CHR ''/'') (rev name @ CHR ''/'' # rev dir) =
      rev name @ takeWhile (\<lambda>c. c \<noteq> CHR ''/'') (CHR ''/'' # rev dir)"
    by (rule takeWhile_append2) (use assms in auto)
  then show ?thesis
    by (simp add: baseName_def)
qed

lemma configCollectResult_collected:
  "collect exampleCollectorDeps [configCollectResult] =
     \<lparr>fileList = {''newrelic.yml'', ''nrdiag-env.txt''},
      pathList = {''/etc/newrelic/newrelic.yml'', ''nrdiag-env.txt''},
      taskFiles = [envStreamEnvelope\<lparr>Identifier := ''Base/Config/Collect''\<rparr>,
        configFileEnvelope\<lparr>Identifier := ''Base/Config/Collect''\<rparr>]\<rparr>"
  by (simp add: collect_def processResult_def processEnvelope_def
      configCollectResult_def emptyCollectorState_def zeroResult_def exampleCollectorDeps_def
      configFileEnvelope_def envStreamEnvelope_def nameLoop.simps StoreName_def
      IncrementDuplicateCount_def exampleStoreName_def baseName_def decimal.simps)

lemma repeatedPathsChannel_accepted:
  "ProcessFilesChannel exampleCollectorDeps repeatedPathsChannel =
     [envStreamEnvelope\<lparr>Identifier := ''Base/Config/Collect''\<rparr>,
      configFileEnvelope\<lparr>Identifier := ''Base/Config/Collect''\<rparr>,
      envStreamEnvelope\<lparr>duplicateCount := 1, Identifier := ''Base/Env/CollectEnvVars''\<rparr>]"
  by (simp add: ProcessFilesChannel_def collect_def processResult_def processEnvelope_def
      repeatedPathsChannel_def configCollectResult_def envVarsResult_def
      emptyCollectorState_def zeroResult_def exampleCollectorDeps_def
      configFileEnvelope_def envStreamEnvelope_def nameLoop.simps StoreName_def
      IncrementDuplicateCount_def exampleStoreName_def baseName_def decimal.simps)

lemma sameNameEnvelope_names:
  "StoreNameOf exampleCollectorDeps (EnvPath (sameNameEnvelope n)) c = exampleNames c"
proof -
  have "EnvPath (sameNameEnvelope n) = (''/var/log/app'' @ decimal n) @ CHR ''/'' # ''newrelic.log''"
    by (simp add: sameNameEnvelope_def)
  moreover have "baseName ((''/var/log/app'' @ decimal n) @ CHR ''/'' # ''newrelic.log'') = ''newrelic.log''"
    by (rule baseName_append) simp
  ultimately show ?thesis
    by (simp add: exampleCollectorDeps_def exampleStoreName_def exampleNames_def)
qed

lemma sixtyEnvelopes_sharesNames:
  "list_all (sharesNames exampleCollectorDeps exampleNames) sixtyEnvelopes"
proof -
  have "sharesNames exampleCollectorDeps exampleNames (sameNameEnvelope n)" for n
    unfolding sharesNames_def list_all_iff
    by (simp add: sameNameEnvelope_names) (simp add: sameNameEnvelope_def exampleCollectorDeps_def)
  then show ?thesis
    by (simp add: sixtyEnvelopes_def list_all_iff)
qed

lemma sixtyEnvelopes_distinct: "distinct (map EnvPath sixtyEnvelopes)"
proof -
  have "inj_on (\<lambda>n. EnvPath (sameNameEnvelope n)) (set [0..<60])"
    by (auto simp: inj_on_def sameNameEnvelope_def dest: decimal_inj)
  then show ?thesis
    by (simp add: sixtyEnvelopes_def distinct_map comp_def)
qed

lemma namesInv_processEnvelope:
  assumes "namesInv deps st"
  shows "namesInv deps (processEnvelope deps taskId st envelope)"
proof (cases "processEnvelope deps taskId st envelope = st")
  case True
  with assms show ?thesis by simp
next
  case False
  then obtain named where loop: "nameLoop deps 1 (fileList st) envelope = Some named"
    and new: "processEnvelope deps taskId st envelope =
        \<lparr>fileList = insert (StoreName deps named) (fileList st),
         pathList = insert (EnvPath named) (pathList st),
         taskFiles = taskFiles st @ [if Identifier named = [] then named\<lparr>Identifier := taskId\<rparr> else named]\<rparr>"
    by (auto simp del: One_nat_def simp add: processEnvelope_def split: sum.splits if_splits option.splits)
  define x where "x = (if Identifier named = [] then named\<lparr>Identifier := taskId\<rparr> else named)"
  have x: "StoreName deps x = StoreName deps named"
    by (simp add: x_def StoreName_def)
  have "StoreName deps named \<notin> fileList st"
    using nameLoop_Some [OF loop] by simp
  then have "namesInv deps \<lparr>fileList = insert (StoreName deps named) (fileList st),
       pathList = insert (EnvPath named) (pathList st), taskFiles = taskFiles st @ [x]\<rparr>"
    using assms x unfolding namesInv_def by auto
  then show ?thesis
    unfolding new x_def .
qed

lemma namesInv_envelopes:
  "namesInv deps st \<Longrightarrow> namesInv deps (foldl (processEnvelope deps taskId) st envelopes)"
  by (induction envelopes arbitrary: st) (simp_all add: namesInv_processEnvelope)

lemma namesInv_results:
  "namesInv deps st \<Longrightarrow> namesInv deps (foldl (processResult deps) st channel)"
  by (induction channel arbitrary: st) (simp_all add: processResult_def namesInv_envelopes)

text \<open>
  The names under which the accepted envelopes are stored differ from each other,
  for every naming function, every file system and every content of the channel.
\<close>

theorem accepted_names_distinct:
  "distinct (map (StoreName deps) (ProcessFilesChannel deps channel))"
proof -
  have "namesInv deps (collect deps channel)"
    unfolding collect_def
    by (rule namesInv_results) (simp add: namesInv_def emptyCollectorState_def)
  then show ?thesis
    by (simp add: namesInv_def ProcessFilesChannel_def)
qed

text \<open>
  C2. Sixty envelopes with identical logical names: the loop
  \<open>for i := 1; i < 50; i++\<close> tries 49 names for an envelope (counters 0 to 48), so
  the collector accepts the first 49 envelopes, with the counters 0 to 48, and
  drops the other eleven.
\<close>

theorem sixty_identical_names_49_accepted:
  "length (ProcessFilesChannel exampleCollectorDeps [sixtyResult]) = 49 \<and>
   map duplicateCount (ProcessFilesChannel exampleCollectorDeps [sixtyResult]) = [0..<49] \<and>
   map EnvPath (ProcessFilesChannel exampleCollectorDeps [sixtyResult]) =
     take 49 (map EnvPath sixtyEnvelopes)"
proof -
  have run: "ProcessFilesChannel exampleCollectorDeps [sixtyResult] =
      taskFiles (foldl (processEnvelope exampleCollectorDeps ''Base/Log/Copy'') emptyCollectorState sixtyEnvelopes)"
    by (simp add: ProcessFilesChannel_def collect_def processResult_def sixtyResult_def)
  have len: "length sixtyEnvelopes = 60"
    by (simp add: sixtyEnvelopes_def)
  have "map duplicateCount (ProcessFilesChannel exampleCollectorDeps [sixtyResult]) =
      map duplicateCount (taskFiles emptyCollectorState) @ [0..<min (0 + length sixtyEnvelopes) 49] \<and>
    map EnvPath (ProcessFilesChannel exampleCollectorDeps [sixtyResult]) =
      map EnvPath (taskFiles emptyCollectorState) @ take (49 - 0) (map EnvPath sixtyEnvelopes)"
    unfolding run
    by (rule foldl_processEnvelope_sharesNames
        [OF exampleNames_inj _ sixtyEnvelopes_sharesNames sixtyEnvelopes_distinct])
      (simp_all add: emptyCollectorState_def)
  then have c: "map duplicateCount (ProcessFilesChannel exampleCollectorDeps [sixtyResult]) = [0..<49]"
    and p: "map EnvPath (ProcessFilesChannel exampleCollectorDeps [sixtyResult]) =
      take 49 (map EnvPath sixtyEnvelopes)"
    by (simp_all add: len emptyCollectorState_def)
  from c have "length (map duplicateCount (ProcessFilesChannel exampleCollectorDeps [sixtyResult])) = 49"
    by simp
  then have "length (ProcessFilesChannel exampleCollectorDeps [sixtyResult]) = 49"
    by simp
  with c p show ?thesis by simp
qed

text \<open>
  C3 as stated fails: a stream under a path that was accepted before is accepted
  again, under a new name.
\<close>

theorem accepted_paths_repeat_counterexample:
  "map EnvPath (ProcessFilesChannel exampleCollectorDeps repeatedPathsChannel) =
     [''nrdiag-env.txt'', ''/etc/newrelic/newrelic.yml'', ''nrdiag-env.txt''] \<and>
   \<not> distinct (map EnvPath (ProcessFilesChannel exampleCollectorDeps repeatedPathsChannel))"
  unfolding repeatedPathsChannel_accepted
  by (simp add: configFileEnvelope_def envStreamEnvelope_def)

text \<open>
  C3, amended. In every run, an accepted envelope without a stream has a path that
  no envelope accepted before it has; so the accepted envelopes without a stream
  have pairwise distinct paths; and an envelope without a stream whose path is in
  \<open>pathList\<close> is dropped. (The test \<open>envelope.Stream == nil\<close> exempts streams.)
\<close>

theorem accepted_file_paths_once:
  "(\<forall>pre e post. ProcessFilesChannel deps channel = pre @ e # post \<and> Stream e = None \<longrightarrow>
      EnvPath e \<notin> EnvPath ` set pre) \<and>
   distinct (map EnvPath (filter (\<lambda>e. Stream e = None) (ProcessFilesChannel deps channel))) \<and>
   (\<forall>taskId st envelope. Stream envelope = None \<and> EnvPath envelope \<in> pathList st \<longrightarrow>
      processEnvelope deps taskId st envelope = st)"
proof (intro conjI)
  show "\<forall>pre e post. ProcessFilesChannel deps channel = pre @ e # post \<and> Stream e = None \<longrightarrow>
      EnvPath e \<notin> EnvPath ` set pre"
    using collectorInv_collect [of deps channel]
    unfolding collectorInv_def pathsFresh_def ProcessFilesChannel_def by blast
  show "distinct (map EnvPath (filter (\<lambda>e. Stream e = None) (ProcessFilesChannel deps channel)))"
    using collectorInv_collect [of deps channel]
    unfolding collectorInv_def ProcessFilesChannel_def by blast
  show "\<forall>taskId st envelope. Stream envelope = None \<and> EnvPath envelope \<in> pathList st \<longrightarrow>
      processEnvelope deps taskId st envelope = st"
    by (simp add: processEnvelope_def split: sum.splits)
qed

theorem accepted_file_paths_once_witness:
  "EnvPath (configFileEnvelope\<lparr>Identifier := ''Base/Config/Collect''\<rparr>) \<notin>
     EnvPath ` set [envStreamEnvelope\<lparr>Identifier := ''Base/Config/Collect''\<rparr>] \<and>
   distinct (map EnvPath (filter (\<lambda>e. Stream e = None)
     (ProcessFilesChannel exampleCollectorDeps repeatedPathsChannel))) \<and>
   processEnvelope exampleCollectorDeps ''Base/Env/CollectEnvVars''
     (collect exampleCollectorDeps [configCollectResult]) configFileEnvelope =
     collect exampleCollectorDeps [configCollectResult]"
proof -
  note t = accepted_file_paths_once [of exampleCollectorDeps repeatedPathsChannel]
  have split: "ProcessFilesChannel exampleCollectorDeps repeatedPathsChannel =
      [envStreamEnvelope\<lparr>Identifier := ''Base/Config/Collect''\<rparr>] @
      configFileEnvelope\<lparr>Identifier := ''Base/Config/Collect''\<rparr> #
      [envStreamEnvelope\<lparr>duplicateCount := 1, Identifier := ''Base/Env/CollectEnvVars''\<rparr>] \<and>
    Stream (configFileEnvelope\<lparr>Identifier := ''Base/Config/Collect''\<rparr>) = None"
    unfolding repeatedPathsChannel_accepted by (simp add: configFileEnvelope_def)
  have seen: "Stream configFileEnvelope = None \<and>
      EnvPath configFileEnvelope \<in> pathList (collect exampleCollectorDeps [configCollectResult])"
    unfolding configCollectResult_collected by (simp add: configFileEnvelope_def)
  have a: "EnvPath (configFileEnvelope\<lparr>Identifier := ''Base/Config/Collect''\<rparr>) \<notin>
      EnvPath ` set [envStreamEnvelope\<lparr>Identifier := ''Base/Config/Collect''\<rparr>]"
    by (rule t [THEN conjunct1, rule_format, OF split])
  have b: "distinct (map EnvPath (filter (\<lambda>e. Stream e = None)
      (ProcessFilesChannel exampleCollectorDeps repeatedPathsChannel)))"
    by (rule t [THEN conjunct2, THEN conjunct1])
  have c: "processEnvelope exampleCollectorDeps ''Base/Env/CollectEnvVars''
      (collect exampleCollectorDeps [configCollectResult]) configFileEnvelope =
      collect exampleCollectorDeps [configCollectResult]"
    by (rule t [THEN conjunct2, THEN conjunct2, rule_format, OF seen])
  from a b c show ?thesis
    by (intro conjI)
qed

section \<open>Properties of the aggregator\<close>


lemma runeWidth_bounds:
  assumes "s \<noteq> []"
  shows "0 < runeWidth s \<and> runeWidth s \<le> length s"
proof -
  from assms obtain c cs where s: "s = c # cs" by (cases s) auto
  obtain sz lo hi where f: "firstByte (of_char c) = (sz, lo, hi)"
    by (cases "firstByte (of_char c)") auto
  have "sz \<in> {1, 2, 3, 4}"
    using f by (auto simp: firstByte_def split: if_splits)
  then show ?thesis
    unfolding runeWidth_def s by (auto simp: f Suc_le_eq)
qed






lemma runeWidth_e_acute: "runeWidth (CHR 0xC3 # CHR 0xA9 # s) = 2"
  by (simp add: runeWidth_def firstByte_def)

lemma truncateString_e_acute:
  "truncateString n (concat (replicate k [CHR 0xC3, CHR 0xA9])) =
     concat (replicate (min n k) [CHR 0xC3, CHR 0xA9])"
proof (induction n arbitrary: k)
  case 0
  show ?case by simp
next
  case (Suc n)
  show ?case
  proof (cases k)
    case 0
    then show ?thesis by simp
  next
    case (Suc j)
    then show ?thesis
      using Suc.IH [of j] by (simp add: runeWidth_e_acute)
  qed
qed






text \<open>
  The ellipsis is decided by the length in bytes, the cut by the count of characters:
  a summary of 26 two-byte characters (52 bytes) is shown in full and still gets
  the ellipsis.
\<close>

theorem ellipsis_without_truncation:
  "length (Summary (Result infoNonAscii)) = 52 \<and>
   truncateString 50 (replaceNewlines (Summary (Result infoNonAscii))) = Summary (Result infoNonAscii) \<and>
   summaryPayload (Result infoNonAscii) = '' ['' @ Summary (Result infoNonAscii) @ ''...] ''"
proof -
  have s: "Summary (Result infoNonAscii) = concat (replicate 26 [CHR 0xC3, CHR 0xA9])"
    by (simp add: infoNonAscii_def zeroResult_def)
  have i: "Status (Result infoNonAscii) = Info"
    by (simp add: infoNonAscii_def zeroResult_def)
  have n: "replaceNewlines (concat (replicate k [CHR 0xC3, CHR 0xA9])) =
      concat (replicate k [CHR 0xC3, CHR 0xA9])" for k
    by (induction k) (simp_all add: replaceNewlines_def)
  have l: "length (concat (replicate k [CHR 0xC3, CHR 0xA9])) = 2 * k" for k
    by (induction k) simp_all
  have t: "truncateString 50 (concat (replicate 26 [CHR 0xC3, CHR 0xA9])) =
      concat (replicate 26 [CHR 0xC3, CHR 0xA9])"
    by (simp add: truncateString_e_acute)
  show ?thesis
    unfolding summaryPayload_def s i n Let_def t l by simp
qed






section \<open>Properties of the archive builder\<close>





end
